theory Spec2Isabelle
  imports Main "HOL-Library.AList"
begin

section \<open>The child bridge supervisor of \<^verbatim>\<open>src/childBridgeService.ts\<close>\<close>

text \<open>
  The class \<^verbatim>\<open>ChildBridgeService\<close> is event driven: its public methods, the listeners
  it attaches to every forked worker, the restart timers it arms and the configuration
  reads it awaits all run to completion one after the other on a single thread. The
  embedding is a state record holding the fields of the class together with the part of
  the outside world the class acts on (the forked processes, the pending timers, the
  notifications and log lines written so far), one function per method, and a step
  function that dispatches one event.
\<close>

subsection \<open>Enumerations\<close>

datatype ChildBridgeStatus = PENDING | OK | DOWN

datatype PluginType = ACCESSORY | PLATFORM

datatype ChildProcessMessageEventType =
  READY | LOAD | LOADED | START | ONLINE | PORT_REQUEST | PORT_ALLOCATED | STATUS_UPDATE

fun event_id :: "ChildProcessMessageEventType \<Rightarrow> string" where
  "event_id READY = ''ready''"
| "event_id LOAD = ''load''"
| "event_id LOADED = ''loaded''"
| "event_id START = ''start''"
| "event_id ONLINE = ''online''"
| "event_id PORT_REQUEST = ''portRequest''"
| "event_id PORT_ALLOCATED = ''portAllocated''"
| "event_id STATUS_UPDATE = ''status''"

subsection \<open>Values arriving over the process channel\<close>

text \<open>
  A message from a worker is whatever value the worker sent: the channel carries JSON.
  An object is an association list in which the first binding of a key is the one read.
\<close>

datatype js_value =
    JUndefined
  | JNull
  | JBool bool
  | JNum int
  | JStr string
  | JArr "js_value list"
  | JObj "(string \<times> js_value) list"

datatype error = TypeError

fun typeof :: "js_value \<Rightarrow> string" where
  "typeof JUndefined = ''undefined''"
| "typeof JNull = ''object''"
| "typeof (JBool b) = ''boolean''"
| "typeof (JNum n) = ''number''"
| "typeof (JStr s) = ''string''"
| "typeof (JArr xs) = ''object''"
| "typeof (JObj kvs) = ''object''"

fun truthy :: "js_value \<Rightarrow> bool" where
  "truthy JUndefined = False"
| "truthy JNull = False"
| "truthy (JBool b) = b"
| "truthy (JNum n) = (n \<noteq> 0)"
| "truthy (JStr s) = (s \<noteq> [])"
| "truthy (JArr xs) = True"
| "truthy (JObj kvs) = True"

text \<open>
  Reading a property (only the names \<^verbatim>\<open>id\<close>, \<^verbatim>\<open>data\<close>, \<^verbatim>\<open>version\<close>, \<^verbatim>\<open>paired\<close>,
  \<^verbatim>\<open>setupUri\<close> and \<^verbatim>\<open>username\<close> are read, none of which a primitive or an array has):
  on \<^verbatim>\<open>undefined\<close> and \<^verbatim>\<open>null\<close> it throws a TypeError.
\<close>

fun get_prop :: "js_value \<Rightarrow> string \<Rightarrow> error + js_value" where
  "get_prop JUndefined k = Inl TypeError"
| "get_prop JNull k = Inl TypeError"
| "get_prop (JObj kvs) k = Inr (case map_of kvs k of None \<Rightarrow> JUndefined | Some v \<Rightarrow> v)"
| "get_prop v k = Inr JUndefined"

subsection \<open>Configuration\<close>

text \<open>
  Modelled from the spec: the declarations of \<^verbatim>\<open>BridgeConfiguration\<close>, \<^verbatim>\<open>PlatformConfig\<close>,
  \<^verbatim>\<open>AccessoryConfig\<close>, \<^verbatim>\<open>HomebridgeConfig\<close>, \<^verbatim>\<open>HomebridgeOptions\<close> and \<^verbatim>\<open>Plugin\<close>
  are in files that are not among the sources. The records below hold the fields that
  the class reads, typed after the data model of the specification: an optional field
  is an \<open>option\<close>, the bridge username (the stable device identifier) is a string.
  The values of environment variables are trimmed character by character, so they are
  kept as JavaScript has them, as sequences of UTF-16 code units.
\<close>

type_synonym js_string = "nat list"

text \<open>The code units of a text written in ASCII.\<close>

definition code_units :: "string \<Rightarrow> js_string" where
  "code_units = map of_char"

record BridgeConfiguration =
  bc_name :: "string option"
  bc_username :: string
  bc_pin :: "string option"
  bc_port :: "nat option"
  bc_setupID :: "string option"
  bc_manufacturer :: "string option"
  bc_model :: "string option"
  bc_firmwareRevision :: "string option"
  bc_advertiser :: "string option"
  bc_bind :: "string list option"
  bc_debugModeEnabled :: bool
  bc_env_DEBUG :: "js_string option"
  bc_env_NODE_OPTIONS :: "js_string option"

text \<open>
  One block of the \<^verbatim>\<open>platforms\<close> or \<^verbatim>\<open>accessories\<close> array of the configuration file:
  \<^verbatim>\<open>platform\<close> or \<^verbatim>\<open>accessory\<close> names the plugin, \<^verbatim>\<open>_bridge\<close> is the nested bridge block.
\<close>

record ConfigBlock =
  cb_platform :: "string option"
  cb_accessory :: "string option"
  cb_name :: "string option"
  cb_bridge :: "BridgeConfiguration option"

record HomebridgeConfig =
  hc_bridge :: BridgeConfiguration
  hc_ports :: "(nat \<times> nat) option"
  hc_disabledPlugins :: "string list option"
  hc_platforms :: "ConfigBlock list option"
  hc_accessories :: "ConfigBlock list option"

record HomebridgeOptions =
  forceColourLogging :: bool
  insecureAccess :: bool
  noLogTimestamps :: bool
  keepOrphanedCachedAccessories :: bool
  customStoragePath :: "string option"
  customPluginPath :: "string option"

record Plugin =
  pluginIdentifier :: string
  pluginPath :: string

text \<open>\<^verbatim>\<open>a || b\<close> on optional strings: \<^verbatim>\<open>undefined\<close> and the empty string are falsy.\<close>

fun str_truthy :: "string option \<Rightarrow> bool" where
  "str_truthy None = False"
| "str_truthy (Some s) = (s \<noteq> [])"

definition js_or :: "string option \<Rightarrow> string option \<Rightarrow> string option" where
  "js_or a b = (if str_truthy a then a else b)"

text \<open>
  \<^verbatim>\<open>String.prototype.trim\<close> removes white space and line terminators from both ends: the
  code units U+0009 to U+000D, U+0020, U+00A0, U+1680, U+2000 to U+200A, U+2028, U+2029,
  U+202F, U+205F, U+3000 and U+FEFF.
\<close>

definition is_space :: "nat \<Rightarrow> bool" where
  "is_space c =
     (c \<in> set [0x09, 0x0A, 0x0B, 0x0C, 0x0D, 0x20, 0xA0, 0x1680, 0x2028, 0x2029, 0x202F,
               0x205F, 0x3000, 0xFEFF] \<or>
      (0x2000 \<le> c \<and> c \<le> 0x200A))"

definition trim :: "js_string \<Rightarrow> js_string" where
  "trim s = rev (dropWhile is_space (rev (dropWhile is_space s)))"

subsection \<open>The world the supervisor acts on\<close>

record ForkOptions =
  fo_env :: "(string \<times> js_string) list option"
  fo_silent :: "bool option"

text \<open>
  A forked worker, as far as the supervisor can see and touch it: whether its channel is
  connected, whether the one-shot \<^verbatim>\<open>close\<close> listener is still attached, whether \<^verbatim>\<open>close\<close>
  has been emitted, and the signals sent with \<^verbatim>\<open>kill\<close>. A worker is named by its position
  in the list of all workers forked so far, which also stands for its pid.
\<close>

record ChildProcess =
  forkArgs :: "string list"
  forkOptions :: ForkOptions
  connected :: bool
  closeListener :: bool
  closed :: bool
  signals :: "string list"

record ChildMetadata =
  md_status :: ChildBridgeStatus
  md_paired :: js_value
  md_setupUri :: js_value
  md_username :: string
  md_pin :: "string option"
  md_name :: string
  md_plugin :: string
  md_identifier :: string
  md_manuallyStopped :: bool
  md_pid :: "nat option"

text \<open>
  The payload of the load message. Its bridge configuration is a new object of ten
  fields; its bridge options are the two cache entries together with the global options
  copied over them by \<^verbatim>\<open>Object.assign\<close>; its global configuration keeps the bridge and
  the ports and has empty lists for the rest.
\<close>

record LoadBridgeConfiguration =
  lb_name :: string
  lb_port :: "nat option"
  lb_username :: string
  lb_advertiser :: "string option"
  lb_pin :: "string option"
  lb_bind :: "string list option"
  lb_setupID :: "string option"
  lb_manufacturer :: "string option"
  lb_model :: "string option"
  lb_firmwareRevision :: "string option"

record LoadBridgeOptions =
  lo_cachedAccessoriesDir :: string
  lo_cachedAccessoriesItemName :: string
  lo_assigned :: HomebridgeOptions

record LoadEventData =
  ld_type :: PluginType
  ld_identifier :: string
  ld_pluginPath :: string
  ld_pluginConfig :: "ConfigBlock list"
  ld_bridgeConfig :: LoadBridgeConfiguration
  ld_bridgeOptions :: LoadBridgeOptions
  ld_homebridgeConfig :: HomebridgeConfig

datatype ChildMessage =
    MsgLoad LoadEventData
  | MsgStart
  | MsgPortAllocated js_value "nat option"

datatype LogLevel = Info | Success | Warn | Error

record supervisor =
  child :: "nat option"
  args :: "string list"
  processEnv :: ForkOptions
  shuttingDown :: bool
  lastBridgeStatus :: ChildBridgeStatus
  pairedStatus :: js_value
  manuallyStopped :: bool
  setupUri :: js_value
  pluginConfig :: "ConfigBlock list"
  logPrefix :: string
  displayName :: "string option"
  restartCount :: nat
  ptype :: PluginType
  identifier' :: string
  plugin :: Plugin
  bridgeConfig :: BridgeConfiguration
  homebridgeConfig :: HomebridgeConfig
  homebridgeOptions :: HomebridgeOptions
  parentEnv :: "(string \<times> js_string) list"
  cachedAccessoryPath :: string
  procs :: "ChildProcess list"
  timers :: "nat list"
  published :: "ChildMetadata list"
  sent :: "(nat \<times> ChildMessage) list"
  logged :: "(LogLevel \<times> string) list"
  pendingReads :: nat
  portRequests :: "js_value list"
  rejections :: "error list"

definition maxRestarts :: nat where
  "maxRestarts = 4"

subsection \<open>Helpers\<close>

fun or_else :: "'a list option \<Rightarrow> 'a list \<Rightarrow> 'a list" where
  "or_else None b = b"
| "or_else (Some a) b = (if a = [] then b else a)"

definition log :: "LogLevel \<Rightarrow> string \<Rightarrow> supervisor \<Rightarrow> supervisor" where
  "log lvl msg s = s\<lparr>logged := logged s @ [(lvl, msg)]\<rparr>"

text \<open>\<^verbatim>\<open>this.child && this.child.connected\<close>\<close>

definition child_connected :: "supervisor \<Rightarrow> bool" where
  "child_connected s =
     (case child s of None \<Rightarrow> False
      | Some c \<Rightarrow> c < length (procs s) \<and> connected (procs s ! c))"

definition getMetadata :: "supervisor \<Rightarrow> ChildMetadata" where
  "getMetadata s =
     \<lparr> md_status = lastBridgeStatus s,
       md_paired = pairedStatus s,
       md_setupUri = setupUri s,
       md_username = bc_username (bridgeConfig s),
       md_pin = js_or (bc_pin (bridgeConfig s)) (bc_pin (hc_bridge (homebridgeConfig s))),
       md_name = or_else (js_or (bc_name (bridgeConfig s)) (displayName s))
                   (pluginIdentifier (plugin s)),
       md_plugin = pluginIdentifier (plugin s),
       md_identifier = identifier' s,
       md_manuallyStopped = manuallyStopped s,
       md_pid = child s \<rparr>"

text \<open>
  Modelled from the spec: \<^verbatim>\<open>ipcService.sendMessage\<close> is in a file that is not among the
  sources. It is the status publisher of the specification, which receives each snapshot
  and forwards it unchanged; the list \<open>published\<close> holds the snapshots it has been
  given by \<^verbatim>\<open>sendStatusUpdate\<close>, in order.
\<close>

definition sendStatusUpdate :: "supervisor \<Rightarrow> supervisor" where
  "sendStatusUpdate s = s\<lparr>published := published s @ [getMetadata s]\<rparr>"

text \<open>The setter of \<^verbatim>\<open>bridgeStatus\<close>.\<close>

definition set_bridgeStatus :: "ChildBridgeStatus \<Rightarrow> supervisor \<Rightarrow> supervisor" where
  "set_bridgeStatus v s = sendStatusUpdate (s\<lparr>lastBridgeStatus := v\<rparr>)"

definition sendMessage :: "ChildMessage \<Rightarrow> supervisor \<Rightarrow> supervisor" where
  "sendMessage m s =
     (if child_connected s then s\<lparr>sent := sent s @ [(the (child s), m)]\<rparr> else s)"

subsection \<open>Launch flags and environment\<close>

definition process_flags :: "BridgeConfiguration \<Rightarrow> HomebridgeOptions \<Rightarrow> string list" where
  "process_flags bc ho =
     (if bc_debugModeEnabled bc then [''-D''] else []) @
     (if forceColourLogging ho then [''-C''] else []) @
     (if insecureAccess ho then [''-I''] else []) @
     (if noLogTimestamps ho then [''-T''] else []) @
     (if keepOrphanedCachedAccessories ho then [''-K''] else []) @
     (case customStoragePath ho of
        None \<Rightarrow> [] | Some p \<Rightarrow> if p \<noteq> [] then [''-U'', p] else []) @
     (case customPluginPath ho of
        None \<Rightarrow> [] | Some p \<Rightarrow> if p \<noteq> [] then [''-P'', p] else [])"

definition setProcessFlags :: "supervisor \<Rightarrow> supervisor" where
  "setProcessFlags s = s\<lparr>args := args s @ process_flags (bridgeConfig s) (homebridgeOptions s)\<rparr>"

definition setProcessEnv :: "supervisor \<Rightarrow> supervisor" where
  "setProcessEnv s =
     s\<lparr>processEnv :=
        \<lparr> fo_env = Some
            (AList.update ''NODE_OPTIONS''
               (trim (or_else (map_of (parentEnv s) ''NODE_OPTIONS'') [] @ [0x20] @
                      or_else (bc_env_NODE_OPTIONS (bridgeConfig s)) []))
               (AList.update ''DEBUG''
                  (trim (or_else (map_of (parentEnv s) ''DEBUG'') [] @ [0x20] @
                         or_else (bc_env_DEBUG (bridgeConfig s)) []))
                  (parentEnv s))),
          fo_silent = Some True \<rparr>\<rparr>"

subsection \<open>Spawning and the close handler\<close>

definition startChildProcess :: "supervisor \<Rightarrow> supervisor" where
  "startChildProcess s =
     (let s1 = set_bridgeStatus PENDING s
      in s1\<lparr>child := Some (length (procs s1)),
            procs := procs s1 @
              [\<lparr> forkArgs = args s1, forkOptions = processEnv s1, connected = True,
                 closeListener = True, closed = False, signals = [] \<rparr>]\<rparr>)"

definition isLikelyPluginCrash :: "int option \<Rightarrow> string option \<Rightarrow> bool" where
  "isLikelyPluginCrash code signal = (code = Some 1 \<and> signal = None)"

definition handleProcessClose :: "int option \<Rightarrow> string option \<Rightarrow> supervisor \<Rightarrow> supervisor" where
  "handleProcessClose code signal s =
     (let s0 = log Warn ''Child bridge ended (code ${code}, signal ${signal}).'' s
      in if isLikelyPluginCrash code signal then
           (if restartCount s0 < maxRestarts then
              (let s1 = set_bridgeStatus PENDING s0;
                   s2 = s1\<lparr>restartCount := restartCount s1 + 1\<rparr>;
                   delay = restartCount s2 * 10;
                   s3 = log Info ''Child bridge will automatically restart in ${delay} seconds (restart attempt ${this.restartCount} of ${this.maxRestarts}).'' s2
               in s3\<lparr>timers := timers s3 @ [delay * 1000]\<rparr>)
            else
              (let s1 = set_bridgeStatus DOWN s0;
                   s2 = s1\<lparr>manuallyStopped := True\<rparr>
               in log Error ''Child bridge will no longer restart after failing ${this.maxRestarts + 1} times, you will need to manually start this child bridge from the Homebridge UI.'' s2))
         else if \<not> shuttingDown s0 then
           (let s1 = set_bridgeStatus DOWN s0;
                s2 = s1\<lparr>restartCount := 0\<rparr>
            in startChildProcess s2)
         else s0)"

text \<open>The callback given to \<^verbatim>\<open>setTimeout\<close> by the crash branch.\<close>

definition restart_timer_fired :: "supervisor \<Rightarrow> supervisor" where
  "restart_timer_fired s = (if \<not> shuttingDown s then startChildProcess s else s)"

definition kill :: "nat \<Rightarrow> string \<Rightarrow> supervisor \<Rightarrow> supervisor" where
  "kill c sig s = s\<lparr>procs := (procs s)[c := (procs s ! c)\<lparr>signals := signals (procs s ! c) @ [sig]\<rparr>]\<rparr>"

definition teardown :: "supervisor \<Rightarrow> supervisor" where
  "teardown s =
     (if child_connected s then kill (the (child s)) ''SIGTERM'' (set_bridgeStatus DOWN s)
      else s)"

definition removeAllListeners_close :: "supervisor \<Rightarrow> supervisor" where
  "removeAllListeners_close s =
     (case child s of None \<Rightarrow> s
      | Some c \<Rightarrow> s\<lparr>procs := (procs s)[c := (procs s ! c)\<lparr>closeListener := False\<rparr>]\<rparr>)"

subsection \<open>Handshake messages\<close>

text \<open>
  \<^verbatim>\<open>username.replace(/:/g, '').toUpperCase()\<close>: the username is a MAC address, hexadecimal
  digits and colons, on which upper-casing is the mapping of the ASCII letters.
\<close>

definition upper_ascii :: "char \<Rightarrow> char" where
  "upper_ascii c =
     (if (97::nat) \<le> of_char c \<and> of_char c \<le> (122::nat) then char_of (of_char c - (32::nat))
      else c)"

definition cachedAccessoriesItemName :: "string \<Rightarrow> string" where
  "cachedAccessoriesItemName username =
     ''cachedAccessories.'' @ map upper_ascii (filter (\<lambda>c. c \<noteq> CHR '':'') username)"

definition loadPlugin :: "supervisor \<Rightarrow> supervisor" where
  "loadPlugin s =
     sendMessage (MsgLoad
       \<lparr> ld_type = ptype s,
         ld_identifier = identifier' s,
         ld_pluginPath = pluginPath (plugin s),
         ld_pluginConfig = pluginConfig s,
         ld_bridgeConfig =
           \<lparr> lb_name = or_else (js_or (bc_name (bridgeConfig s)) (displayName s))
                         (pluginIdentifier (plugin s)),
             lb_port = bc_port (bridgeConfig s),
             lb_username = bc_username (bridgeConfig s),
             lb_advertiser = bc_advertiser (hc_bridge (homebridgeConfig s)),
             lb_pin = js_or (bc_pin (bridgeConfig s)) (bc_pin (hc_bridge (homebridgeConfig s))),
             lb_bind = bc_bind (hc_bridge (homebridgeConfig s)),
             lb_setupID = bc_setupID (bridgeConfig s),
             lb_manufacturer = js_or (bc_manufacturer (bridgeConfig s))
                                 (bc_manufacturer (hc_bridge (homebridgeConfig s))),
             lb_model = js_or (bc_model (bridgeConfig s)) (bc_model (hc_bridge (homebridgeConfig s))),
             lb_firmwareRevision = js_or (bc_firmwareRevision (bridgeConfig s))
                                     (bc_firmwareRevision (hc_bridge (homebridgeConfig s))) \<rparr>,
         ld_bridgeOptions =
           \<lparr> lo_cachedAccessoriesDir = cachedAccessoryPath s,
             lo_cachedAccessoriesItemName =
               cachedAccessoriesItemName (bc_username (bridgeConfig s)),
             lo_assigned = homebridgeOptions s \<rparr>,
         ld_homebridgeConfig =
           \<lparr> hc_bridge = hc_bridge (homebridgeConfig s),
             hc_ports = hc_ports (homebridgeConfig s),
             hc_disabledPlugins = Some [],
             hc_platforms = Some [],
             hc_accessories = Some [] \<rparr> \<rparr>) s"

definition startBridge :: "supervisor \<Rightarrow> supervisor" where
  "startBridge s = sendMessage MsgStart s"

text \<open>
  \<^verbatim>\<open>handlePortRequest\<close> is asynchronous: reading \<^verbatim>\<open>request.username\<close> happens at once
  (a throw there rejects the promise, which nobody awaits), the port is granted later.
\<close>

definition handlePortRequest :: "js_value \<Rightarrow> supervisor \<Rightarrow> supervisor" where
  "handlePortRequest request s =
     (case get_prop request ''username'' of
        Inl e \<Rightarrow> s\<lparr>rejections := rejections s @ [e]\<rparr>
      | Inr username \<Rightarrow> s\<lparr>portRequests := portRequests s @ [username]\<rparr>)"

definition port_resolved :: "nat \<Rightarrow> nat option \<Rightarrow> supervisor \<Rightarrow> supervisor" where
  "port_resolved i port s =
     (if i < length (portRequests s) then
        sendMessage (MsgPortAllocated (portRequests s ! i) port)
          (s\<lparr>portRequests := take i (portRequests s) @ drop (Suc i) (portRequests s)\<rparr>)
      else s)"

text \<open>The listener for \<^verbatim>\<open>message\<close> attached by \<^verbatim>\<open>startChildProcess\<close>.\<close>

definition on_message :: "js_value \<Rightarrow> supervisor \<Rightarrow> error + supervisor" where
  "on_message message s =
     (if typeof message \<noteq> ''object'' then Inr s
      else case get_prop message ''id'' of
        Inl e \<Rightarrow> Inl e
      | Inr mid \<Rightarrow>
          if \<not> truthy mid then Inr s
          else if mid = JStr (event_id READY) then
            Inr (loadPlugin (log Info ''Child bridge starting...'' s))
          else if mid = JStr (event_id LOADED) then
            (case get_prop message ''data'' of
               Inl e \<Rightarrow> Inl e
             | Inr data \<Rightarrow>
                 (case get_prop data ''version'' of
                    Inl e \<Rightarrow> Inl e
                  | Inr version \<Rightarrow>
                      Inr (startBridge
                        (if length (pluginConfig s) > 1 then
                           log Success ''Child bridge started successfully with ${this.pluginConfig.length} accessories (plugin v${version}).'' s
                         else
                           log Success ''Child bridge started successfully (plugin v${version}).'' s))))
          else if mid = JStr (event_id ONLINE) then
            Inr (set_bridgeStatus OK s)
          else if mid = JStr (event_id PORT_REQUEST) then
            (case get_prop message ''data'' of
               Inl e \<Rightarrow> Inl e
             | Inr data \<Rightarrow> Inr (handlePortRequest data s))
          else if mid = JStr (event_id STATUS_UPDATE) then
            (case get_prop message ''data'' of
               Inl e \<Rightarrow> Inl e
             | Inr data \<Rightarrow>
                 (case get_prop data ''paired'' of
                    Inl e \<Rightarrow> Inl e
                  | Inr paired \<Rightarrow>
                      (case get_prop data ''setupUri'' of
                         Inl e \<Rightarrow> Inl e
                       | Inr uri \<Rightarrow>
                           Inr (sendStatusUpdate (s\<lparr>pairedStatus := paired, setupUri := uri\<rparr>)))))
          else Inr s)"

subsection \<open>Refreshing the configuration\<close>

text \<open>
  \<^verbatim>\<open>fs.readJson\<close> either fails (the file cannot be read or parsed) or yields the parsed
  configuration, whose \<^verbatim>\<open>platforms\<close> and \<^verbatim>\<open>accessories\<close> arrays may be absent.
\<close>

datatype read_result = ReadFailed string | ReadOk HomebridgeConfig

text \<open>\<^verbatim>\<open>x._bridge?.username\<close>\<close>

definition bridge_username :: "ConfigBlock \<Rightarrow> string option" where
  "bridge_username x = map_option bc_username (cb_bridge x)"

definition matches_platform :: "supervisor \<Rightarrow> ConfigBlock \<Rightarrow> bool" where
  "matches_platform s x =
     (cb_platform x = Some (identifier' s) \<and>
      bridge_username x = Some (bc_username (bridgeConfig s)))"

definition matches_accessory :: "supervisor \<Rightarrow> ConfigBlock \<Rightarrow> bool" where
  "matches_accessory s x =
     (cb_accessory x = Some (identifier' s) \<and>
      bridge_username x = Some (bc_username (bridgeConfig s)))"

text \<open>
  \<^verbatim>\<open>this.pluginConfig = config; this.bridgeConfig = this.pluginConfig[0]._bridge || this.bridgeConfig\<close>
\<close>

definition adopt_config :: "ConfigBlock list \<Rightarrow> supervisor \<Rightarrow> supervisor" where
  "adopt_config config s =
     (let s1 = s\<lparr>pluginConfig := config\<rparr>
      in s1\<lparr>bridgeConfig :=
           (case cb_bridge (hd (pluginConfig s1)) of None \<Rightarrow> bridgeConfig s1 | Some b \<Rightarrow> b)\<rparr>)"

text \<open>
  The body of the \<^verbatim>\<open>try\<close> block once the read has settled. A failed read throws, and so
  does \<^verbatim>\<open>config.length\<close> when the array that \<^verbatim>\<open>?.filter\<close> was applied to is absent.
\<close>

definition refreshConfig_try :: "read_result \<Rightarrow> supervisor \<Rightarrow> string + supervisor" where
  "refreshConfig_try r s =
     (case r of
        ReadFailed msg \<Rightarrow> Inl msg
      | ReadOk hc \<Rightarrow>
          (case ptype s of
             PLATFORM \<Rightarrow>
               (case hc_platforms hc of
                  None \<Rightarrow> Inl ''Cannot read properties of undefined (reading 'length')''
                | Some ps \<Rightarrow>
                    (let config = filter (matches_platform s) ps
                     in if config \<noteq> [] then Inr (adopt_config config s)
                        else Inr (log Warn ''Platform config could not be found, using existing config.'' s)))
           | ACCESSORY \<Rightarrow>
               (case hc_accessories hc of
                  None \<Rightarrow> Inl ''Cannot read properties of undefined (reading 'length')''
                | Some as \<Rightarrow>
                    (let config = filter (matches_accessory s) as
                     in if config \<noteq> [] then Inr (adopt_config config s)
                        else Inr (log Warn ''Accessory config could not be found, using existing config.'' s)))))"

text \<open>
  \<^verbatim>\<open>refreshConfig\<close> with its \<^verbatim>\<open>catch\<close>: the result is \<open>Inl\<close> when the promise rejects,
  \<open>Inr\<close> when it resolves.
\<close>

definition refreshConfig_resume :: "read_result \<Rightarrow> supervisor \<Rightarrow> error + supervisor" where
  "refreshConfig_resume r s =
     (case refreshConfig_try r s of
        Inl msg \<Rightarrow> Inr (log Error (''Failed to refresh plugin config: '' @ msg) s)
      | Inr s' \<Rightarrow> Inr s')"

text \<open>
  The call itself runs up to the \<^verbatim>\<open>await\<close>: it starts the read and returns the promise.
  None of the callers in the class awaits it, so what follows the call in the caller
  runs before the read settles.
\<close>

definition refreshConfig_call :: "supervisor \<Rightarrow> supervisor" where
  "refreshConfig_call s = s\<lparr>pendingReads := pendingReads s + 1\<rparr>"

definition config_read :: "read_result \<Rightarrow> supervisor \<Rightarrow> error + supervisor" where
  "config_read r s =
     (if 0 < pendingReads s then refreshConfig_resume r (s\<lparr>pendingReads := pendingReads s - 1\<rparr>)
      else Inr s)"

text \<open>The call awaited: the read settles with \<open>r\<close> before anything else happens.\<close>

definition refreshConfig :: "read_result \<Rightarrow> supervisor \<Rightarrow> error + supervisor" where
  "refreshConfig r s = config_read r (refreshConfig_call s)"

subsection \<open>Public operations\<close>

text \<open>
  The display name chosen by \<^verbatim>\<open>start\<close>: the name of the config block when there is
  exactly one (and it has a non-empty name), the plugin identifier otherwise.
\<close>

definition start_displayName :: "supervisor \<Rightarrow> string" where
  "start_displayName s =
     (if length (pluginConfig s) > 1 \<or> length (pluginConfig s) = 0
      then pluginIdentifier (plugin s)
      else or_else (cb_name (hd (pluginConfig s))) (pluginIdentifier (plugin s)))"

definition start :: "supervisor \<Rightarrow> supervisor" where
  "start s =
     (let s1 = startChildProcess (setProcessEnv (setProcessFlags s));
          s2 = s1\<lparr>displayName := Some (start_displayName s1)\<rparr>
      in s2\<lparr>logPrefix := the (displayName s2)\<rparr>)"

definition addConfig :: "ConfigBlock \<Rightarrow> supervisor \<Rightarrow> supervisor" where
  "addConfig config s = s\<lparr>pluginConfig := pluginConfig s @ [config]\<rparr>"

definition startChildBridge :: "supervisor \<Rightarrow> supervisor" where
  "startChildBridge s =
     (if manuallyStopped s \<and> lastBridgeStatus s = DOWN \<and> \<not> child_connected s then
        (let s1 = startChildProcess (refreshConfig_call s)
         in s1\<lparr>shuttingDown := False, manuallyStopped := False\<rparr>)
      else log Warn ''Child bridge cannot be started, it is still running or was not manually stopped.'' s)"

definition restartChildBridge :: "supervisor \<Rightarrow> supervisor" where
  "restartChildBridge s =
     (if manuallyStopped s then startChildBridge (s\<lparr>restartCount := 0\<rparr>)
      else teardown (refreshConfig_call (log Warn ''Child bridge restarting...'' s)))"

definition stopChildBridge :: "supervisor \<Rightarrow> supervisor" where
  "stopChildBridge s =
     (if \<not> shuttingDown s then
        (let s1 = log Warn ''Child bridge stopping, will not restart.'' s;
             s2 = s1\<lparr>shuttingDown := True, manuallyStopped := True, restartCount := 0\<rparr>
         in teardown (removeAllListeners_close (set_bridgeStatus DOWN s2)))
      else log Warn ''Child bridge already shutting down or stopped.'' s)"

text \<open>The listener for the \<^verbatim>\<open>shutdown\<close> event of the API, registered by the constructor.\<close>

definition on_shutdown :: "supervisor \<Rightarrow> supervisor" where
  "on_shutdown s = teardown (s\<lparr>shuttingDown := True\<rparr>)"

text \<open>The listener for \<^verbatim>\<open>error\<close> attached by \<^verbatim>\<open>startChildProcess\<close>.\<close>

definition on_error :: "supervisor \<Rightarrow> supervisor" where
  "on_error s = log Error ''Child bridge process error'' (set_bridgeStatus DOWN s)"

text \<open>
  The constructor. Besides its arguments the class reads two things of the process it
  runs in, which are given here: the environment \<^verbatim>\<open>process.env\<close> and the directory
  returned by \<^verbatim>\<open>User.cachedAccessoryPath()\<close>.
\<close>

definition init ::
  "PluginType \<Rightarrow> string \<Rightarrow> Plugin \<Rightarrow> BridgeConfiguration \<Rightarrow> HomebridgeConfig \<Rightarrow>
   HomebridgeOptions \<Rightarrow> (string \<times> js_string) list \<Rightarrow> string \<Rightarrow> supervisor" where
  "init t ident pl bc hc ho penv cache =
     \<lparr> child = None, args = [], processEnv = \<lparr> fo_env = None, fo_silent = None \<rparr>,
       shuttingDown = False, lastBridgeStatus = PENDING, pairedStatus = JNull,
       manuallyStopped = False, setupUri = JNull, pluginConfig = [],
       logPrefix = pluginIdentifier pl, displayName = None, restartCount = 0,
       ptype = t, identifier' = ident, plugin = pl, bridgeConfig = bc,
       homebridgeConfig = hc, homebridgeOptions = ho, parentEnv = penv,
       cachedAccessoryPath = cache, procs = [], timers = [], published = [], sent = [], logged = [],
       pendingReads = 0, portRequests = [], rejections = [] \<rparr>"

subsection \<open>Events\<close>

text \<open>
  Everything that can run code of the supervisor: a call of a public method, an event
  emitted by a forked worker (\<^verbatim>\<open>close\<close>, \<^verbatim>\<open>error\<close>, \<^verbatim>\<open>message\<close>; its channel
  disconnecting runs no listener but is seen through \<^verbatim>\<open>connected\<close>), a restart timer
  firing, a configuration read or a port request settling, the shutdown of the API.
  A worker emits \<^verbatim>\<open>close\<close> once; the listener is attached with \<^verbatim>\<open>once\<close>, so it is
  detached before it runs. Only a connected worker delivers messages.
\<close>

datatype event =
    Start
  | AddConfig ConfigBlock
  | RestartChildBridge
  | StopChildBridge
  | StartChildBridge
  | RefreshConfig
  | ConfigRead read_result
  | ApiShutdown
  | ChildClose nat "int option" "string option"
  | ChildError nat
  | ChildDisconnect nat
  | ChildMessage nat js_value
  | TimerFired nat
  | PortResolved nat "nat option"

definition child_close :: "nat \<Rightarrow> int option \<Rightarrow> string option \<Rightarrow> supervisor \<Rightarrow> supervisor" where
  "child_close c code signal s =
     (if c < length (procs s) \<and> \<not> closed (procs s ! c) then
        (let p = procs s ! c;
             s1 = s\<lparr>procs := (procs s)[c := p\<lparr>connected := False, closed := True,
                                              closeListener := False\<rparr>]\<rparr>
         in if closeListener p then handleProcessClose code signal s1 else s1)
      else s)"

definition child_disconnect :: "nat \<Rightarrow> supervisor \<Rightarrow> supervisor" where
  "child_disconnect c s =
     (if c < length (procs s) then s\<lparr>procs := (procs s)[c := (procs s ! c)\<lparr>connected := False\<rparr>]\<rparr>
      else s)"

definition timer_fired :: "nat \<Rightarrow> supervisor \<Rightarrow> supervisor" where
  "timer_fired i s =
     (if i < length (timers s) then
        restart_timer_fired (s\<lparr>timers := take i (timers s) @ drop (Suc i) (timers s)\<rparr>)
      else s)"

fun step :: "event \<Rightarrow> supervisor \<Rightarrow> error + supervisor" where
  "step Start s = Inr (start s)"
| "step (AddConfig c) s = Inr (addConfig c s)"
| "step RestartChildBridge s = Inr (restartChildBridge s)"
| "step StopChildBridge s = Inr (stopChildBridge s)"
| "step StartChildBridge s = Inr (startChildBridge s)"
| "step RefreshConfig s = Inr (refreshConfig_call s)"
| "step (ConfigRead r) s = config_read r s"
| "step ApiShutdown s = Inr (on_shutdown s)"
| "step (ChildClose c code signal) s = Inr (child_close c code signal s)"
| "step (ChildError c) s = (if c < length (procs s) then Inr (on_error s) else Inr s)"
| "step (ChildDisconnect c) s = Inr (child_disconnect c s)"
| "step (ChildMessage c m) s =
     (if c < length (procs s) \<and> connected (procs s ! c) then on_message m s else Inr s)"
| "step (TimerFired i) s = Inr (timer_fired i s)"
| "step (PortResolved i port) s = Inr (port_resolved i port s)"

fun run :: "event list \<Rightarrow> supervisor \<Rightarrow> error + supervisor" where
  "run [] s = Inr s"
| "run (e # es) s = (case step e s of Inl err \<Rightarrow> Inl err | Inr s' \<Rightarrow> run es s')"

subsection \<open>Crash sequences\<close>

text \<open>
  The attached worker closes with exit code 1 and no signal; one restart cycle is that
  close followed by the restart timer firing.
\<close>

definition crash_close :: "supervisor \<Rightarrow> supervisor" where
  "crash_close s = (case child s of None \<Rightarrow> s | Some c \<Rightarrow> child_close c (Some 1) None s)"

definition crash_cycle :: "supervisor \<Rightarrow> supervisor" where
  "crash_cycle s = timer_fired 0 (crash_close s)"

fun crash_cycles :: "nat \<Rightarrow> supervisor \<Rightarrow> supervisor" where
  "crash_cycles 0 s = s"
| "crash_cycles (Suc n) s = crash_cycle (crash_cycles n s)"

text \<open>
  \<open>armed n s\<close>: the supervisor is not shutting down, has counted \<open>n\<close> restarts, has no
  restart timer pending, and its attached worker is the only one whose channel or close
  listener is still there, and has not closed yet. This is the state after \<^verbatim>\<open>start()\<close>
  on a new supervisor.
\<close>

definition others_gone :: "nat \<Rightarrow> ChildProcess list \<Rightarrow> bool" where
  "others_gone c ps =
     list_all (\<lambda>p. \<not> connected p \<and> \<not> closeListener p) (take c ps @ drop (Suc c) ps)"

definition armed :: "nat \<Rightarrow> supervisor \<Rightarrow> bool" where
  "armed n s =
     (restartCount s = n \<and> \<not> shuttingDown s \<and> timers s = [] \<and>
      (case child s of None \<Rightarrow> False
       | Some c \<Rightarrow> c < length (procs s) \<and> closeListener (procs s ! c) \<and>
                  \<not> closed (procs s ! c) \<and> others_gone c (procs s)))"

text \<open>
  \<open>pinned_down s\<close>: manually stopped, status Down, no timer pending, and no worker left
  that is connected or has a close listener.
\<close>

definition pinned_down :: "supervisor \<Rightarrow> bool" where
  "pinned_down s =
     (manuallyStopped s \<and> lastBridgeStatus s = DOWN \<and> timers s = [] \<and>
      list_all (\<lambda>p. \<not> connected p \<and> \<not> closeListener p) (procs s))"

text \<open>
  The calls that start a worker on request: \<^verbatim>\<open>start\<close>, \<^verbatim>\<open>startChildBridge\<close>, and
  \<^verbatim>\<open>restartChildBridge\<close>, which calls \<^verbatim>\<open>startChildBridge\<close> when manually stopped.
\<close>

fun starts_worker :: "event \<Rightarrow> bool" where
  "starts_worker Start = True"
| "starts_worker StartChildBridge = True"
| "starts_worker RestartChildBridge = True"
| "starts_worker e = False"

subsection \<open>A sample supervisor\<close>

definition sample_bridge :: BridgeConfiguration where
  "sample_bridge =
     \<lparr> bc_name = Some ''Hue Bridge'', bc_username = ''0E:3A:9C:11:22:33'', bc_pin = None,
       bc_port = Some 51830, bc_setupID = None, bc_manufacturer = None, bc_model = None,
       bc_firmwareRevision = None, bc_advertiser = None, bc_bind = None,
       bc_debugModeEnabled = True,
       bc_env_DEBUG = Some (code_units ''hue*''), bc_env_NODE_OPTIONS = None \<rparr>"

definition sample_main_bridge :: BridgeConfiguration where
  "sample_main_bridge =
     \<lparr> bc_name = Some ''Homebridge'', bc_username = ''CC:22:3D:E3:CE:30'',
       bc_pin = Some ''031-45-154'', bc_port = Some 51826, bc_setupID = None,
       bc_manufacturer = None, bc_model = None, bc_firmwareRevision = None,
       bc_advertiser = Some ''bonjour-hap'', bc_bind = None,
       bc_debugModeEnabled = False, bc_env_DEBUG = None, bc_env_NODE_OPTIONS = None \<rparr>"

definition sample_block :: ConfigBlock where
  "sample_block =
     \<lparr> cb_platform = Some ''Hue'', cb_accessory = None, cb_name = Some ''Hue'',
       cb_bridge = Some sample_bridge \<rparr>"

definition sample_config :: HomebridgeConfig where
  "sample_config =
     \<lparr> hc_bridge = sample_main_bridge, hc_ports = None, hc_disabledPlugins = None,
       hc_platforms = Some [sample_block],
       hc_accessories = Some [] \<rparr>"

definition sample_options :: HomebridgeOptions where
  "sample_options =
     \<lparr> forceColourLogging = False, insecureAccess = False, noLogTimestamps = False,
       keepOrphanedCachedAccessories = False, customStoragePath = None,
       customPluginPath = None \<rparr>"

definition sample_supervisor :: supervisor where
  "sample_supervisor =
     addConfig sample_block
       (init PLATFORM ''Hue''
          \<lparr> pluginIdentifier = ''homebridge-hue'', pluginPath = ''/usr/lib/node_modules/homebridge-hue'' \<rparr>
          sample_bridge sample_config sample_options [(''PATH'', code_units ''/usr/bin'')]
          ''/var/lib/homebridge/accessories'')"

subsection \<open>Message kinds with a handler\<close>

text \<open>The values of \<^verbatim>\<open>id\<close> that have a \<^verbatim>\<open>case\<close> in the message listener.\<close>

definition handled_ids :: "js_value set" where
  "handled_ids = JStr ` event_id ` {READY, LOADED, ONLINE, PORT_REQUEST, STATUS_UPDATE}"

subsection \<open>Notifications between two states\<close>

text \<open>
  \<open>notified s s'\<close>: the notifications of \<open>s'\<close> are those of \<open>s\<close> followed by new ones;
  there is a new one if the status differs; and the last new one carries the status of
  \<open>s'\<close>.
\<close>

definition notified :: "supervisor \<Rightarrow> supervisor \<Rightarrow> bool" where
  "notified s s' =
     (take (length (published s)) (published s') = published s \<and>
      (let new = drop (length (published s)) (published s')
       in (lastBridgeStatus s' \<noteq> lastBridgeStatus s \<longrightarrow> new \<noteq> []) \<and>
          (new \<noteq> [] \<longrightarrow> md_status (last new) = lastBridgeStatus s')))"

subsection \<open>The part of a state that decides restarts\<close>

text \<open>
  For each worker whether it is connected, has its close listener, and has closed; for the
  supervisor the attached worker, the two flags, the counter, the status, the timers.
\<close>

definition flags :: "ChildProcess \<Rightarrow> bool \<times> bool \<times> bool" where
  "flags p = (connected p, closeListener p, closed p)"

definition core ::
  "supervisor \<Rightarrow> nat option \<times> bool \<times> bool \<times> nat \<times> ChildBridgeStatus \<times> nat list \<times> (bool \<times> bool \<times> bool) list" where
  "core s = (child s, shuttingDown s, manuallyStopped s, restartCount s, lastBridgeStatus s,
             timers s, map flags (procs s))"

subsection \<open>A stop and a start during the backoff wait\<close>

text \<open>
  The worker crashes, and within the ten seconds of the backoff the bridge is stopped and
  started again by hand. \<^verbatim>\<open>stopChildBridge\<close> does not cancel the restart timer and
  \<^verbatim>\<open>startChildBridge\<close> clears \<open>shuttingDown\<close>, so the timer forks a second worker next to
  the one just started (worker 1), which stays alive with its close listener but is no
  longer the attached one. The attached worker then crashes five times in a row.
\<close>

definition stale_timer_trace :: "event list" where
  "stale_timer_trace =
     [Start, ChildClose 0 (Some 1) None, StopChildBridge, StartChildBridge, TimerFired 0,
      ChildClose 2 (Some 1) None, TimerFired 0, ChildClose 3 (Some 1) None, TimerFired 0,
      ChildClose 4 (Some 1) None, TimerFired 0, ChildClose 5 (Some 1) None, TimerFired 0,
      ChildClose 6 (Some 1) None]"

section \<open>Properties\<close>

subsection \<open>Restart cycles\<close>

lemmas basic_defs = log_def set_bridgeStatus_def sendStatusUpdate_def startChildProcess_def
  handleProcessClose_def restart_timer_fired_def kill_def teardown_def removeAllListeners_close_def
  isLikelyPluginCrash_def maxRestarts_def Let_def

lemma others_gone_all:
  assumes "others_gone c ps" "c < length ps"
  shows "list_all (\<lambda>p. \<not> connected p \<and> \<not> closeListener p) (ps[c := (ps ! c)\<lparr>connected := False, closed := True, closeListener := False\<rparr>])"
proof -
  have "ps[c := q] = take c ps @ q # drop (Suc c) ps" for q
    using assms(2) by (simp add: upd_conv_take_nth_drop)
  then show ?thesis using assms(1) by (simp add: others_gone_def)
qed

lemma all_gone_others: 
  "list_all (\<lambda>p. \<not> connected p \<and> \<not> closeListener p) ps \<Longrightarrow> others_gone (length ps) (ps @ [q])"
  by (simp add: others_gone_def)

lemma armed_cycle:
  assumes "armed n s" "n < maxRestarts"
  shows "armed (Suc n) (crash_cycle s) \<and> length (procs (crash_cycle s)) = Suc (length (procs s))
     \<and> timers (crash_close s) = [Suc n * 10 * 1000] \<and> lastBridgeStatus (crash_close s) = PENDING
     \<and> restartCount (crash_close s) = Suc n"
proof -
  from assms(1) obtain c where c: "child s = Some c" "c < length (procs s)" "closeListener (procs s ! c)"
     "\<not> closed (procs s ! c)" "others_gone c (procs s)" "restartCount s = n" "\<not> shuttingDown s" "timers s = []"
    by (auto simp: armed_def split: option.splits)
  let ?ps = "(procs s)[c := (procs s ! c)\<lparr>connected := False, closed := True, closeListener := False\<rparr>]"
  have g: "list_all (\<lambda>p. \<not> connected p \<and> \<not> closeListener p) ?ps"
    using others_gone_all[OF c(5) c(2)] .
  have og: "others_gone (length ?ps) (?ps @ [q])" for q using all_gone_others[OF g] .
  show ?thesis using c assms(2) og
    by (simp add: crash_cycle_def crash_close_def child_close_def timer_fired_def armed_def basic_defs nth_append)
qed


lemma armed_exhausted:
  assumes "armed n s" "\<not> n < maxRestarts"
  shows "pinned_down (crash_close s) \<and> length (procs (crash_close s)) = length (procs s)"
proof -
  from assms(1) obtain c where c: "child s = Some c" "c < length (procs s)" "closeListener (procs s ! c)"
     "\<not> closed (procs s ! c)" "others_gone c (procs s)" "restartCount s = n" "\<not> shuttingDown s" "timers s = []"
    by (auto simp: armed_def split: option.splits)
  let ?ps = "(procs s)[c := (procs s ! c)\<lparr>connected := False, closed := True, closeListener := False\<rparr>]"
  have g: "list_all (\<lambda>p. \<not> connected p \<and> \<not> closeListener p) ?ps"
    using others_gone_all[OF c(5) c(2)] .
  show ?thesis using c assms(2) g
    by (simp add: crash_close_def child_close_def pinned_down_def basic_defs)
qed

lemma all_gone_nth:
  "list_all (\<lambda>p. \<not> connected p \<and> \<not> closeListener p) ps \<Longrightarrow> c < length ps \<Longrightarrow>
     \<not> connected (ps ! c) \<and> \<not> closeListener (ps ! c)"
  by (simp add: list_all_length)

lemma all_gone_update:
  assumes "list_all (\<lambda>p. \<not> connected p \<and> \<not> closeListener p) ps" "\<not> connected q" "\<not> closeListener q"
  shows "list_all (\<lambda>p. \<not> connected p \<and> \<not> closeListener p) (ps[c := q])"
  using assms set_update_subset_insert[of ps c q] unfolding list_all_iff by auto

lemma child_connected_same:
  "child t = child s \<Longrightarrow> procs t = procs s \<Longrightarrow> child_connected t = child_connected s"
  by (simp add: child_connected_def split: option.splits)

lemma child_connected_log [simp]: "child_connected (log l m s) = child_connected s"
  by (rule child_connected_same) (simp_all add: log_def)

lemma child_connected_set_status [simp]: "child_connected (set_bridgeStatus v s) = child_connected s"
  by (rule child_connected_same) (simp_all add: set_bridgeStatus_def sendStatusUpdate_def)

lemma child_connected_removeAll [simp]:
  "child_connected (removeAllListeners_close s) = child_connected s"
  by (auto simp: child_connected_def removeAllListeners_close_def nth_list_update split: option.splits)

lemma teardown_idle: "\<not> child_connected s \<Longrightarrow> teardown s = s"
  by (simp add: teardown_def)

lemma pinned_removeAll:
  "list_all (\<lambda>p. \<not> connected p \<and> \<not> closeListener p) (procs (removeAllListeners_close s))"
  if "list_all (\<lambda>p. \<not> connected p \<and> \<not> closeListener p) (procs s)"
proof (cases "child s")
  case None
  then show ?thesis using that by (simp add: removeAllListeners_close_def)
next
  case (Some c)
  show ?thesis
  proof (cases "c < length (procs s)")
    case True
    then show ?thesis using Some that all_gone_nth[OF that True]
      by (auto simp: removeAllListeners_close_def intro!: all_gone_update)
  next
    case False
    then show ?thesis using Some that by (simp add: removeAllListeners_close_def list_update_beyond)
  qed
qed

lemma pinned_not_connected: "pinned_down s \<Longrightarrow> \<not> child_connected s"
  by (auto simp: pinned_down_def child_connected_def list_all_length split: option.splits)

lemma pinned_step:
  assumes "pinned_down s" "\<not> starts_worker e"
  shows "\<exists>t. step e s = Inr t \<and> pinned_down t \<and> length (procs t) = length (procs s)"
proof (cases e)
  case (ConfigRead r)
  then show ?thesis using assms(1)
    by (auto simp: config_read_def refreshConfig_resume_def refreshConfig_try_def adopt_config_def
        pinned_down_def log_def Let_def split: read_result.splits PluginType.splits option.splits sum.splits)
next
  case (ChildClose c code signal)
  then show ?thesis using assms(1) all_gone_nth[of "procs s" c]
    by (auto simp: child_close_def pinned_down_def Let_def intro!: all_gone_update)
next
  case (ChildDisconnect c)
  then show ?thesis using assms(1) all_gone_nth[of "procs s" c]
    by (auto simp: child_disconnect_def pinned_down_def intro!: all_gone_update)
next
  case (ChildMessage c m)
  then show ?thesis using assms(1) all_gone_nth[of "procs s" c]
    by (auto simp: pinned_down_def)
next
  case (ChildError c)
  then show ?thesis using assms(1)
    by (auto simp: on_error_def pinned_down_def basic_defs)
next
  case StopChildBridge
  let ?s2 = "set_bridgeStatus DOWN ((log Warn ''Child bridge stopping, will not restart.'' s)\<lparr>shuttingDown := True, manuallyStopped := True, restartCount := 0\<rparr>)"
  have "child_connected ((log Warn ''Child bridge stopping, will not restart.'' s)\<lparr>shuttingDown := True, manuallyStopped := True, restartCount := 0\<rparr>) = child_connected s"
    by (rule child_connected_same) (simp_all add: log_def)
  then have nc: "\<not> child_connected (removeAllListeners_close ?s2)"
    using pinned_not_connected[OF assms(1)] by simp
  have eq: "\<not> shuttingDown s \<Longrightarrow> stopChildBridge s = removeAllListeners_close ?s2"
    using teardown_idle[OF nc] by (simp add: stopChildBridge_def Let_def)
  have g: "list_all (\<lambda>p. \<not> connected p \<and> \<not> closeListener p) (procs ?s2)"
    using assms(1) by (simp add: pinned_down_def basic_defs)
  have p2: "pinned_down (removeAllListeners_close ?s2)"
    using pinned_removeAll[OF g] assms(1)
    by (cases "child s") (simp_all add: pinned_down_def removeAllListeners_close_def basic_defs)
  have l2: "length (procs (removeAllListeners_close ?s2)) = length (procs s)"
    by (cases "child s") (simp_all add: removeAllListeners_close_def basic_defs)
  show ?thesis
  proof (cases "shuttingDown s")
    case True
    then show ?thesis using StopChildBridge assms(1)
      by (simp add: stopChildBridge_def pinned_down_def log_def)
  next
    case False
    then show ?thesis using StopChildBridge eq p2 l2 by simp
  qed
next
  case ApiShutdown
  have "\<not> child_connected (s\<lparr>shuttingDown := True\<rparr>)"
    using pinned_not_connected[OF assms(1)] child_connected_same[of "s\<lparr>shuttingDown := True\<rparr>" s] by simp
  then show ?thesis using ApiShutdown assms(1)
    by (simp add: on_shutdown_def teardown_def pinned_down_def)
next
  case (PortResolved i port)
  have "\<not> child_connected (s\<lparr>portRequests := x\<rparr>)" for x
    using pinned_not_connected[OF assms(1)] child_connected_same[of "s\<lparr>portRequests := x\<rparr>" s] by simp
  then show ?thesis using PortResolved assms(1)
    by (simp add: port_resolved_def sendMessage_def pinned_down_def)
next
  case (TimerFired i)
  then show ?thesis using assms(1) by (simp add: timer_fired_def pinned_down_def)
qed (use assms in \<open>auto simp: pinned_down_def addConfig_def refreshConfig_call_def\<close>)


lemma pinned_run:
  assumes "pinned_down s" "list_all (\<lambda>e. \<not> starts_worker e) es"
  shows "\<exists>t. run es s = Inr t \<and> pinned_down t \<and> length (procs t) = length (procs s)"
  using assms
proof (induction es arbitrary: s)
  case Nil
  then show ?case by simp
next
  case (Cons e es)
  from Cons.prems obtain s' where s': "step e s = Inr s'" "pinned_down s'" "length (procs s') = length (procs s)"
    using pinned_step[of s e] by auto
  from Cons.IH[OF s'(2)] Cons.prems(2) obtain t where "run es s' = Inr t" "pinned_down t" "length (procs t) = length (procs s')"
    by auto
  then show ?case using s' by simp
qed

lemma armed_cycles:
  assumes "armed 0 s" "n \<le> maxRestarts"
  shows "armed n (crash_cycles n s) \<and> length (procs (crash_cycles n s)) = length (procs s) + n"
  using assms(2)
proof (induction n)
  case 0
  then show ?case using assms(1) by simp
next
  case (Suc n)
  then have ih: "armed n (crash_cycles n s)" "length (procs (crash_cycles n s)) = length (procs s) + n"
    by simp_all
  from Suc.prems have "n < maxRestarts" by simp
  from armed_cycle[OF ih(1) this] ih(2) show ?case by simp
qed


lemma start_fields:
  "restartCount (start s) = restartCount s" "shuttingDown (start s) = shuttingDown s"
  "timers (start s) = timers s" "child (start s) = Some (length (procs s))"
  "procs (start s) = procs s @ [\<lparr> forkArgs = args s @ process_flags (bridgeConfig s) (homebridgeOptions s),
      forkOptions = processEnv (setProcessEnv s), connected = True,
      closeListener = True, closed = False, signals = [] \<rparr>]"
  by (simp_all add: start_def setProcessFlags_def setProcessEnv_def basic_defs)

lemma armed_start:
  assumes "restartCount s = 0" "\<not> shuttingDown s" "timers s = []"
    "list_all (\<lambda>p. \<not> connected p \<and> \<not> closeListener p) (procs s)"
  shows "armed 0 (start s)"
  using assms all_gone_others[OF assms(4)]
  by (simp add: armed_def start_fields nth_append)

lemma sample_fresh:
  "restartCount sample_supervisor = 0" "\<not> shuttingDown sample_supervisor"
  "timers sample_supervisor = []" "procs sample_supervisor = []"
  by (simp_all add: sample_supervisor_def init_def addConfig_def)

text \<open>
  A supervisor that is not shutting down, has counted no restart, has no timer pending
  and whose attached worker is the only live one (the state after \<^verbatim>\<open>start()\<close>): after
  four cycles of crash and restart \<open>restartCount\<close> is \<open>maxRestarts = 4\<close>, and after the
  fifth crash the status is Down, \<open>manuallyStopped\<close> is true, no timer is pending, and
  only the four workers of the four cycles have been forked. From then on every sequence
  of events without a call that starts a worker on request (\<^verbatim>\<open>startChildBridge\<close>, also
  through \<^verbatim>\<open>restartChildBridge\<close>, or \<^verbatim>\<open>start\<close>) runs without an error and leaves the
  status Down, \<open>manuallyStopped\<close> true, no timer pending and the number of forked workers
  unchanged.
\<close>

lemma armed_five_crashes_pin_down:
  assumes "armed 0 s"
  shows "let s5 = crash_close (crash_cycles 4 s) in
     restartCount (crash_cycles 4 s) = maxRestarts \<and>
     lastBridgeStatus s5 = DOWN \<and> manuallyStopped s5 \<and> timers s5 = [] \<and>
     length (procs s5) = length (procs s) + 4 \<and>
     (\<forall>es. list_all (\<lambda>e. \<not> starts_worker e) es \<longrightarrow>
        (\<exists>t. run es s5 = Inr t \<and> lastBridgeStatus t = DOWN \<and> manuallyStopped t \<and> timers t = [] \<and>
             length (procs t) = length (procs s5)))"
proof -
  have a4: "armed 4 (crash_cycles 4 s)" "length (procs (crash_cycles 4 s)) = length (procs s) + 4"
    using armed_cycles[OF assms, of 4] by (simp_all add: maxRestarts_def)
  have p: "pinned_down (crash_close (crash_cycles 4 s))"
      "length (procs (crash_close (crash_cycles 4 s))) = length (procs (crash_cycles 4 s))"
    using armed_exhausted[OF a4(1)] by (simp_all add: maxRestarts_def)
  have r: "\<exists>t. run es (crash_close (crash_cycles 4 s)) = Inr t \<and> lastBridgeStatus t = DOWN \<and> manuallyStopped t \<and> timers t = [] \<and>
             length (procs t) = length (procs (crash_close (crash_cycles 4 s)))"
    if "list_all (\<lambda>e. \<not> starts_worker e) es" for es
    using pinned_run[OF p(1) that] by (auto simp: pinned_down_def)
  have rc: "restartCount (crash_cycles 4 s) = maxRestarts" using a4(1) by (simp add: armed_def maxRestarts_def)
  show ?thesis unfolding Let_def using p a4(2) r rc by (simp add: pinned_down_def)
qed

lemma start_fields2:
  "lastBridgeStatus (start s) = PENDING" "manuallyStopped (start s) = manuallyStopped s"
  "args (start s) = args s @ process_flags (bridgeConfig s) (homebridgeOptions s)"
  "processEnv (start s) = processEnv (setProcessEnv s)"
  by (simp_all add: start_def setProcessFlags_def setProcessEnv_def basic_defs)

lemma start_fields3:
  "bridgeConfig (start s) = bridgeConfig s" "homebridgeOptions (start s) = homebridgeOptions s"
  "pluginConfig (start s) = pluginConfig s" "plugin (start s) = plugin s"
  "parentEnv (start s) = parentEnv s"
  "displayName (start s) = Some (start_displayName s)"
  "logPrefix (start s) = start_displayName s"
  by (simp_all add: start_def start_displayName_def setProcessFlags_def setProcessEnv_def basic_defs)

lemma sample_started:
  "child (start sample_supervisor) = Some 0" "length (procs (start sample_supervisor)) = 1"
  "\<not> shuttingDown (start sample_supervisor)" "args (start sample_supervisor) = [''-D'']"
  "connected (procs (start sample_supervisor) ! 0)" "signals (procs (start sample_supervisor) ! 0) = []"
  "\<not> closed (procs (start sample_supervisor) ! 0)"
  by (simp_all add: start_fields start_fields2 sample_fresh)
     (simp_all add: sample_supervisor_def init_def addConfig_def process_flags_def sample_bridge_def sample_options_def)

subsection \<open>The close handler\<close>

text \<open>
  C2. When a worker closes with exit code 1 and no signal and fewer than \<open>maxRestarts = 4\<close>
  restarts have been counted, \<^verbatim>\<open>handleProcessClose\<close> sets the status to Pending, adds one
  to \<open>restartCount\<close>, forks nothing and arms one timer, of the new \<open>restartCount\<close> times
  10 seconds (the timer is recorded in milliseconds). So the crash that follows \<open>n\<close>
  restart cycles of a newly started supervisor arms a timer of \<open>10 * (n + 1)\<close> seconds,
  which grows with \<open>n\<close>. When a timer fires, it forks a worker if \<open>shuttingDown\<close> is
  false at that moment and does nothing otherwise.
\<close>

theorem crash_close_backoff:
  "(restartCount s < maxRestarts \<longrightarrow>
      (let s' = handleProcessClose (Some 1) None s in
         lastBridgeStatus s' = PENDING \<and> restartCount s' = restartCount s + 1 \<and>
         timers s' = timers s @ [restartCount s' * 10 * 1000] \<and> procs s' = procs s)) \<and>
   (armed 0 s \<and> n < maxRestarts \<longrightarrow>
      timers (crash_close (crash_cycles n s)) = [(n + 1) * 10 * 1000]) \<and>
   (i < length (timers t) \<longrightarrow>
      timer_fired i t =
        (if shuttingDown t then t\<lparr>timers := take i (timers t) @ drop (Suc i) (timers t)\<rparr>
         else startChildProcess (t\<lparr>timers := take i (timers t) @ drop (Suc i) (timers t)\<rparr>)))"
proof -
  have a: "restartCount s < maxRestarts \<Longrightarrow>
      (let s' = handleProcessClose (Some 1) None s in
         lastBridgeStatus s' = PENDING \<and> restartCount s' = restartCount s + 1 \<and>
         timers s' = timers s @ [restartCount s' * 10 * 1000] \<and> procs s' = procs s)"
    by (simp add: basic_defs)
  have b: "timers (crash_close (crash_cycles n s)) = [(n + 1) * 10 * 1000]"
    if "armed 0 s" "n < maxRestarts"
  proof -
    have "armed n (crash_cycles n s)" using armed_cycles[OF that(1), of n] that(2) by simp
    from armed_cycle[OF this that(2)] show ?thesis by simp
  qed
  have c: "i < length (timers t) \<Longrightarrow>
      timer_fired i t =
        (if shuttingDown t then t\<lparr>timers := take i (timers t) @ drop (Suc i) (timers t)\<rparr>
         else startChildProcess (t\<lparr>timers := take i (timers t) @ drop (Suc i) (timers t)\<rparr>))"
    by (simp add: timer_fired_def restart_timer_fired_def)
  show ?thesis using a b c by blast
qed

theorem crash_close_backoff_witness:
  "restartCount (start sample_supervisor) < maxRestarts \<and>
   lastBridgeStatus (handleProcessClose (Some 1) None (start sample_supervisor)) = PENDING \<and>
   restartCount (handleProcessClose (Some 1) None (start sample_supervisor)) = 1 \<and>
   timers (handleProcessClose (Some 1) None (start sample_supervisor)) = [10000] \<and>
   armed 0 (start sample_supervisor) \<and> (2::nat) < maxRestarts \<and>
   timers (crash_close (crash_cycles 2 (start sample_supervisor))) = [30000] \<and>
   (0::nat) < length (timers (crash_close (start sample_supervisor))) \<and>
   procs (timer_fired 0 ((crash_close (start sample_supervisor))\<lparr>shuttingDown := True\<rparr>)) =
     procs (crash_close (start sample_supervisor))"
proof -
  let ?s = "start sample_supervisor"
  have h: "armed 0 ?s" by (rule armed_start) (simp_all add: sample_fresh)
  have r: "restartCount ?s = 0" "timers ?s = []"
    by (simp_all add: start_fields sample_fresh)
  have t1: "timers (crash_close ?s) = [10000]"
    using crash_close_backoff[of ?s 0] h by (simp add: maxRestarts_def)
  have f2: "procs (timer_fired 0 ((crash_close ?s)\<lparr>shuttingDown := True\<rparr>)) = procs (crash_close ?s)"
    using crash_close_backoff[of _ _ 0 "(crash_close ?s)\<lparr>shuttingDown := True\<rparr>"] t1 by simp
  have a: "lastBridgeStatus (handleProcessClose (Some 1) None ?s) = PENDING \<and>
     restartCount (handleProcessClose (Some 1) None ?s) = 1 \<and>
     timers (handleProcessClose (Some 1) None ?s) = [10000]"
    using crash_close_backoff[of ?s] r by (simp add: Let_def maxRestarts_def)
  have b: "timers (crash_close (crash_cycles 2 ?s)) = [30000]"
    using crash_close_backoff[of ?s 2] h by (simp add: maxRestarts_def)
  show ?thesis using a b h r t1 f2 by (simp add: maxRestarts_def)
qed


text \<open>
  C3. When a worker closes in any other way than with exit code 1 and no signal, and the
  supervisor is not shutting down, \<^verbatim>\<open>handleProcessClose\<close> sets \<open>restartCount\<close> to 0,
  leaves the status Pending (it passes through Down), arms no timer and forks a new
  worker at once, which becomes the attached one.
\<close>

theorem non_crash_close_respawns:
  assumes "\<not> (code = Some 1 \<and> signal = None)" "\<not> shuttingDown s"
  shows "\<not> isLikelyPluginCrash code signal \<and>
    (let s' = handleProcessClose code signal s in
       restartCount s' = 0 \<and> lastBridgeStatus s' = PENDING \<and> timers s' = timers s \<and>
       child s' = Some (length (procs s)) \<and>
       procs s' = procs s @ [\<lparr> forkArgs = args s, forkOptions = processEnv s, connected = True,
                               closeListener = True, closed = False, signals = [] \<rparr>])"
  using assms by (auto simp add: basic_defs)

theorem non_crash_close_respawns_witness:
  "\<not> (Some (0::int) = Some 1 \<and> (None :: string option) = None) \<and>
   \<not> shuttingDown (crash_cycles 2 (start sample_supervisor)) \<and>
   restartCount (crash_cycles 2 (start sample_supervisor)) = 2 \<and>
   restartCount (handleProcessClose (Some 0) None (crash_cycles 2 (start sample_supervisor))) = 0 \<and>
   lastBridgeStatus (handleProcessClose (Some 0) None (crash_cycles 2 (start sample_supervisor))) = PENDING \<and>
   timers (handleProcessClose (Some 0) None (crash_cycles 2 (start sample_supervisor))) = [] \<and>
   child (handleProcessClose (Some 0) None (crash_cycles 2 (start sample_supervisor))) = Some 3"
proof -
  let ?s = "crash_cycles 2 (start sample_supervisor)"
  have h: "armed 0 (start sample_supervisor)" by (rule armed_start) (simp_all add: sample_fresh)
  have a: "armed 2 ?s" "length (procs ?s) = 3"
    using armed_cycles[OF h, of 2] by (simp_all add: maxRestarts_def start_fields sample_fresh)
  then have n: "\<not> shuttingDown ?s" "restartCount ?s = 2" "timers ?s = []"
    by (simp_all add: armed_def)
  show ?thesis using non_crash_close_respawns[of "Some 0" None ?s] n a(2)
    by (simp add: Let_def)
qed

subsection \<open>Stopping\<close>

text \<open>
  C4, as stated, fails where the attached worker's channel is not connected:
  \<^verbatim>\<open>teardown\<close> sends the signal under the guard \<^verbatim>\<open>this.child && this.child.connected\<close>.
  Here the worker of the sample supervisor has disconnected but not closed, and
  \<^verbatim>\<open>stopChildBridge\<close> sends it nothing.
\<close>

theorem stopChildBridge_no_signal_counterexample:
  "\<not> shuttingDown (child_disconnect 0 (start sample_supervisor)) \<and>
   child (child_disconnect 0 (start sample_supervisor)) = Some 0 \<and>
   \<not> closed (procs (child_disconnect 0 (start sample_supervisor)) ! 0) \<and>
   signals (procs (stopChildBridge (child_disconnect 0 (start sample_supervisor))) ! 0) = []"
  using sample_started
  by (simp add: child_disconnect_def stopChildBridge_def child_connected_def basic_defs)

text \<open>
  C4, amended. Called while \<open>shuttingDown\<close> is false, \<^verbatim>\<open>stopChildBridge\<close> sets
  \<open>shuttingDown\<close> and \<open>manuallyStopped\<close>, leaves the status Down, forks nothing and arms
  no timer; the attached worker has lost its close listener, so that its close afterwards
  forks nothing, arms no timer and leaves the status Down; and it has been sent SIGTERM
  if its channel was connected, and nothing if it was not. Called while \<open>shuttingDown\<close>
  is true, \<^verbatim>\<open>stopChildBridge\<close> appends one warning to the log and changes nothing else.
\<close>

theorem stopChildBridge_effect:
  "(\<not> shuttingDown s \<longrightarrow>
      (let s' = stopChildBridge s in
         shuttingDown s' \<and> manuallyStopped s' \<and> lastBridgeStatus s' = DOWN \<and>
         timers s' = timers s \<and> length (procs s') = length (procs s) \<and>
         (\<forall>c. child s = Some c \<and> c < length (procs s) \<longrightarrow>
            \<not> closeListener (procs s' ! c) \<and>
            signals (procs s' ! c) =
              (if connected (procs s ! c) then signals (procs s ! c) @ [''SIGTERM'']
               else signals (procs s ! c)) \<and>
            (\<forall>code signal.
               length (procs (child_close c code signal s')) = length (procs s') \<and>
               timers (child_close c code signal s') = timers s' \<and>
               lastBridgeStatus (child_close c code signal s') = DOWN)))) \<and>
   (shuttingDown s \<longrightarrow>
      stopChildBridge s =
        s\<lparr>logged := logged s @ [(Warn, ''Child bridge already shutting down or stopped.'')]\<rparr>)"
proof -
  have b: "shuttingDown s \<Longrightarrow> stopChildBridge s =
        s\<lparr>logged := logged s @ [(Warn, ''Child bridge already shutting down or stopped.'')]\<rparr>"
    by (simp add: stopChildBridge_def log_def)
  have a: "shuttingDown (stopChildBridge s) \<and> manuallyStopped (stopChildBridge s) \<and>
      lastBridgeStatus (stopChildBridge s) = DOWN \<and> timers (stopChildBridge s) = timers s \<and>
      length (procs (stopChildBridge s)) = length (procs s)" if "\<not> shuttingDown s"
    using that
    by (cases "child s")
       (simp_all add: stopChildBridge_def child_connected_def basic_defs nth_list_update)
  have c: "\<not> closeListener (procs (stopChildBridge s) ! c) \<and>
            signals (procs (stopChildBridge s) ! c) =
              (if connected (procs s ! c) then signals (procs s ! c) @ [''SIGTERM'']
               else signals (procs s ! c))"
    if "\<not> shuttingDown s" "child s = Some c" "c < length (procs s)" for c
    using that
    by (simp add: stopChildBridge_def child_connected_def basic_defs nth_list_update)
  have d: "length (procs (child_close c code signal (stopChildBridge s))) = length (procs (stopChildBridge s)) \<and>
               timers (child_close c code signal (stopChildBridge s)) = timers (stopChildBridge s) \<and>
               lastBridgeStatus (child_close c code signal (stopChildBridge s)) = DOWN"
    if "\<not> shuttingDown s" "child s = Some c" "c < length (procs s)" for c code signal
    using a[OF that(1)] c[OF that] by (simp add: child_close_def Let_def)
  show ?thesis unfolding Let_def using a b c d by blast
qed


theorem stopChildBridge_effect_witness:
  "\<not> shuttingDown (start sample_supervisor) \<and> child (start sample_supervisor) = Some 0 \<and>
   0 < length (procs (start sample_supervisor)) \<and>
   shuttingDown (stopChildBridge (start sample_supervisor)) \<and>
   manuallyStopped (stopChildBridge (start sample_supervisor)) \<and>
   lastBridgeStatus (stopChildBridge (start sample_supervisor)) = DOWN \<and>
   \<not> closeListener (procs (stopChildBridge (start sample_supervisor)) ! 0) \<and>
   signals (procs (stopChildBridge (start sample_supervisor)) ! 0) = [''SIGTERM''] \<and>
   length (procs (child_close 0 None (Some ''SIGTERM'') (stopChildBridge (start sample_supervisor)))) = 1 \<and>
   stopChildBridge (stopChildBridge (start sample_supervisor)) =
     (stopChildBridge (start sample_supervisor))
       \<lparr>logged := logged (stopChildBridge (start sample_supervisor)) @
          [(Warn, ''Child bridge already shutting down or stopped.'')]\<rparr>"
proof -
  let ?s = "start sample_supervisor"
  note st = stopChildBridge_effect[of ?s, unfolded Let_def]
  have a: "shuttingDown (stopChildBridge ?s)" "manuallyStopped (stopChildBridge ?s)"
     "lastBridgeStatus (stopChildBridge ?s) = DOWN" "length (procs (stopChildBridge ?s)) = 1"
    using st sample_started by simp_all
  have b: "\<not> closeListener (procs (stopChildBridge ?s) ! 0)"
      "signals (procs (stopChildBridge ?s) ! 0) = [''SIGTERM'']"
      "length (procs (child_close 0 None (Some ''SIGTERM'') (stopChildBridge ?s))) = 1"
    using st sample_started by simp_all
  have c: "stopChildBridge (stopChildBridge ?s) =
     (stopChildBridge ?s)\<lparr>logged := logged (stopChildBridge ?s) @
          [(Warn, ''Child bridge already shutting down or stopped.'')]\<rparr>"
    using stopChildBridge_effect[of "stopChildBridge ?s"] a(1) by simp
  show ?thesis using a b c sample_started by simp
qed

subsection \<open>Starting\<close>

text \<open>
  C6, as stated, fails: \<^verbatim>\<open>start\<close> is not idempotent. On the sample supervisor, whose
  bridge has debug mode on, the second call leaves \<^verbatim>\<open>-D\<close> twice in the launch arguments
  and a second worker forked and attached.
\<close>

theorem start_twice_counterexample:
  "args (start sample_supervisor) = [''-D''] \<and>
   args (start (start sample_supervisor)) = [''-D'', ''-D''] \<and>
   length (procs (start sample_supervisor)) = 1 \<and>
   length (procs (start (start sample_supervisor))) = 2 \<and>
   child (start sample_supervisor) = Some 0 \<and>
   child (start (start sample_supervisor)) = Some 1"
  using sample_started
  by (simp add: start_fields[of "start sample_supervisor"] start_fields2[of "start sample_supervisor"]
        start_fields3 process_flags_def)
     (simp add: sample_supervisor_def init_def addConfig_def sample_bridge_def sample_options_def)

text \<open>
  C6, amended. A second \<^verbatim>\<open>start()\<close> leaves the environment, the display name, the log
  prefix and the status (Pending) as the first call left them; it appends the launch
  flags once more to the arguments and forks one more worker, with the longer
  arguments, which replaces the first as the attached worker.
\<close>

theorem start_twice:
  "processEnv (start (start s)) = processEnv (start s) \<and>
   displayName (start (start s)) = displayName (start s) \<and>
   logPrefix (start (start s)) = logPrefix (start s) \<and>
   lastBridgeStatus (start (start s)) = lastBridgeStatus (start s) \<and>
   lastBridgeStatus (start s) = PENDING \<and>
   args (start s) = args s @ process_flags (bridgeConfig s) (homebridgeOptions s) \<and>
   args (start (start s)) = args (start s) @ process_flags (bridgeConfig s) (homebridgeOptions s) \<and>
   child (start s) = Some (length (procs s)) \<and>
   child (start (start s)) = Some (length (procs s) + 1) \<and>
   procs (start (start s)) =
     procs (start s) @
       [\<lparr> forkArgs = args (start (start s)), forkOptions = processEnv (start s),
          connected = True, closeListener = True, closed = False, signals = [] \<rparr>]"
proof -
  have e: "processEnv (setProcessEnv (start s)) = processEnv (setProcessEnv s)"
    by (simp add: setProcessEnv_def start_fields3)
  have d: "start_displayName (start s) = start_displayName s"
    by (simp add: start_displayName_def start_fields3)
  show ?thesis
    by (simp add: start_fields[of "start s"] start_fields2[of "start s"] start_fields3[of "start s"]
          e d start_fields[of s] start_fields2[of s] start_fields3[of s])
qed


subsection \<open>Refreshing the configuration\<close>

text \<open>
  C7. Whatever the read yields, \<^verbatim>\<open>refreshConfig\<close> resolves: it never rejects. When the
  read fails, or succeeds with no block for this plugin type whose plugin name and bridge
  username are this supervisor's (also when the array is absent altogether), it leaves
  \<open>pluginConfig\<close> and \<open>bridgeConfig\<close> as they were and writes a log line. When there are
  matching blocks, they become \<open>pluginConfig\<close> and the bridge block of the first one
  becomes \<open>bridgeConfig\<close>.
\<close>

theorem refreshConfig_never_raises:
  "\<exists>s'. refreshConfig r s = Inr s' \<and>
     (((\<exists>msg. r = ReadFailed msg) \<or>
       (\<exists>hc. r = ReadOk hc \<and>
          (case ptype s of
             PLATFORM \<Rightarrow> (case hc_platforms hc of None \<Rightarrow> True
                          | Some ps \<Rightarrow> list_all (\<lambda>x. \<not> matches_platform s x) ps)
           | ACCESSORY \<Rightarrow> (case hc_accessories hc of None \<Rightarrow> True
                          | Some as \<Rightarrow> list_all (\<lambda>x. \<not> matches_accessory s x) as))))
      \<longrightarrow> pluginConfig s' = pluginConfig s \<and> bridgeConfig s' = bridgeConfig s \<and>
          logged s' \<noteq> logged s) \<and>
     (\<forall>hc ps. r = ReadOk hc \<and> ptype s = PLATFORM \<and> hc_platforms hc = Some ps \<and>
        filter (matches_platform s) ps \<noteq> [] \<longrightarrow>
          pluginConfig s' = filter (matches_platform s) ps \<and>
          cb_bridge (hd (filter (matches_platform s) ps)) = Some (bridgeConfig s')) \<and>
     (\<forall>hc as. r = ReadOk hc \<and> ptype s = ACCESSORY \<and> hc_accessories hc = Some as \<and>
        filter (matches_accessory s) as \<noteq> [] \<longrightarrow>
          pluginConfig s' = filter (matches_accessory s) as \<and>
          cb_bridge (hd (filter (matches_accessory s) as)) = Some (bridgeConfig s'))"
proof -
  have mp: "matches_platform (s\<lparr>pendingReads := n\<rparr>) = matches_platform s" for n
    by (rule ext) (simp add: matches_platform_def)
  have ma: "matches_accessory (s\<lparr>pendingReads := n\<rparr>) = matches_accessory s" for n
    by (rule ext) (simp add: matches_accessory_def)
  have hp: "cb_bridge (hd (filter (matches_platform s) ps)) \<noteq> None" if "filter (matches_platform s) ps \<noteq> []" for ps
  proof -
    have "matches_platform s (hd (filter (matches_platform s) ps))"
      using hd_in_set[OF that] by auto
    then show ?thesis by (auto simp: matches_platform_def bridge_username_def)
  qed
  have ha: "cb_bridge (hd (filter (matches_accessory s) as)) \<noteq> None" if "filter (matches_accessory s) as \<noteq> []" for as
  proof -
    have "matches_accessory s (hd (filter (matches_accessory s) as))"
      using hd_in_set[OF that] by auto
    then show ?thesis by (auto simp: matches_accessory_def bridge_username_def)
  qed
  have fe: "filter P xs = [] \<longleftrightarrow> list_all (\<lambda>x. \<not> P x) xs" for P and xs :: "ConfigBlock list"
    by (simp add: filter_empty_conv list_all_iff)
  show ?thesis
  proof (cases r)
    case (ReadFailed msg)
    then show ?thesis
      by (simp add: refreshConfig_def refreshConfig_call_def config_read_def refreshConfig_resume_def
          refreshConfig_try_def log_def)
  next
    case (ReadOk hc)
    show ?thesis
    proof (cases "ptype s")
      case PLATFORM
      show ?thesis
      proof (cases "hc_platforms hc")
        case None
        then show ?thesis using ReadOk PLATFORM
          by (simp add: refreshConfig_def refreshConfig_call_def config_read_def refreshConfig_resume_def
            refreshConfig_try_def log_def)
      next
        case (Some ps)
        then show ?thesis using ReadOk PLATFORM hp[of ps]
          by (auto simp add: refreshConfig_def refreshConfig_call_def config_read_def refreshConfig_resume_def
            refreshConfig_try_def log_def mp adopt_config_def Let_def fe)
      qed
    next
      case ACCESSORY
      show ?thesis
      proof (cases "hc_accessories hc")
        case None
        then show ?thesis using ReadOk ACCESSORY
          by (simp add: refreshConfig_def refreshConfig_call_def config_read_def refreshConfig_resume_def
            refreshConfig_try_def log_def)
      next
        case (Some as)
        then show ?thesis using ReadOk ACCESSORY ha[of as]
          by (auto simp add: refreshConfig_def refreshConfig_call_def config_read_def refreshConfig_resume_def
            refreshConfig_try_def log_def ma adopt_config_def Let_def fe)
      qed
    qed
  qed
qed


lemma sample_matches:
  "ptype sample_supervisor = PLATFORM" "hc_platforms sample_config = Some [sample_block]"
  "filter (matches_platform sample_supervisor) [sample_block] = [sample_block]"
  "pluginConfig sample_supervisor = [sample_block]" "bridgeConfig sample_supervisor = sample_bridge"
  by (simp_all add: sample_supervisor_def init_def addConfig_def sample_config_def
        matches_platform_def bridge_username_def sample_block_def)

theorem refreshConfig_never_raises_witness:
  "(\<exists>s'. refreshConfig (ReadFailed ''ENOENT'') sample_supervisor = Inr s' \<and>
        pluginConfig s' = pluginConfig sample_supervisor \<and>
        bridgeConfig s' = bridgeConfig sample_supervisor) \<and>
   (\<exists>s'. refreshConfig (ReadOk (sample_config\<lparr>hc_platforms := None\<rparr>)) sample_supervisor = Inr s' \<and>
        pluginConfig s' = pluginConfig sample_supervisor \<and>
        bridgeConfig s' = bridgeConfig sample_supervisor) \<and>
   (\<exists>s'. refreshConfig (ReadOk sample_config) sample_supervisor = Inr s' \<and>
        pluginConfig s' = [sample_block] \<and> bridgeConfig s' = sample_bridge)"
proof -
  have a: "\<exists>s'. refreshConfig (ReadFailed ''ENOENT'') sample_supervisor = Inr s' \<and>
        pluginConfig s' = pluginConfig sample_supervisor \<and>
        bridgeConfig s' = bridgeConfig sample_supervisor"
    using refreshConfig_never_raises[of "ReadFailed ''ENOENT''" sample_supervisor] by auto
  have b: "\<exists>s'. refreshConfig (ReadOk (sample_config\<lparr>hc_platforms := None\<rparr>)) sample_supervisor = Inr s' \<and>
        pluginConfig s' = pluginConfig sample_supervisor \<and>
        bridgeConfig s' = bridgeConfig sample_supervisor"
    using refreshConfig_never_raises[of "ReadOk (sample_config\<lparr>hc_platforms := None\<rparr>)" sample_supervisor]
      sample_matches(1) by auto
  have c: "\<exists>s'. refreshConfig (ReadOk sample_config) sample_supervisor = Inr s' \<and>
        pluginConfig s' = [sample_block] \<and> bridgeConfig s' = sample_bridge"
    using refreshConfig_never_raises[of "ReadOk sample_config" sample_supervisor] sample_matches
    by (auto simp: sample_block_def)
  show ?thesis using a b c by blast
qed

subsection \<open>Inbound messages\<close>

text \<open>
  The message listener returns at once, without an error and leaving the supervisor as
  it was, for every message whose \<^verbatim>\<open>typeof\<close> is not \<^verbatim>\<open>object\<close>, for every object or
  array whose \<^verbatim>\<open>id\<close> is absent or falsy, and for every one whose \<^verbatim>\<open>id\<close> is not one of
  the five kinds the listener has a case for (\<^verbatim>\<open>ready\<close>, \<^verbatim>\<open>loaded\<close>, \<^verbatim>\<open>online\<close>,
  \<^verbatim>\<open>portRequest\<close>, \<^verbatim>\<open>status\<close>); so does the event of a worker delivering such a
  message.
\<close>

lemma unrecognized_messages_discarded:
  assumes "typeof m \<noteq> ''object'' \<or>
     (\<exists>v. get_prop m ''id'' = Inr v \<and> (\<not> truthy v \<or> v \<notin> handled_ids))"
  shows "on_message m s = Inr s \<and> step (ChildMessage c m) s = Inr s"
proof -
  have "on_message m s = Inr s"
  proof (cases "typeof m = ''object''")
    case False
    then show ?thesis by (simp add: on_message_def)
  next
    case True
    with assms obtain v where v: "get_prop m ''id'' = Inr v" and w: "\<not> truthy v \<or> v \<notin> handled_ids"
      by (elim disjE exE conjE) simp_all
    show ?thesis
    proof (cases "truthy v")
      case False
      then show ?thesis using True v by (simp add: on_message_def)
    next
      case t: True
      with w have "v \<notin> handled_ids" by simp
      then have n: "v \<noteq> JStr (event_id READY)" "v \<noteq> JStr (event_id LOADED)"
        "v \<noteq> JStr (event_id ONLINE)" "v \<noteq> JStr (event_id PORT_REQUEST)"
        "v \<noteq> JStr (event_id STATUS_UPDATE)"
        unfolding handled_ids_def by (simp_all del: event_id.simps)
      show ?thesis using True v t n
        by (simp add: on_message_def del: event_id.simps)
    qed
  qed
  then show ?thesis by simp
qed

text \<open>
  C8. Every inbound message that is not an object, has no \<^verbatim>\<open>id\<close>, or has an \<^verbatim>\<open>id\<close>
  outside the recognised kinds is to be discarded without an error and without a change
  of state. The listener does not do so for the message \<^verbatim>\<open>null\<close>, which is not an object
  and has no \<^verbatim>\<open>id\<close>: \<^verbatim>\<open>typeof null\<close> is \<^verbatim>\<open>object\<close>, so the guard of the listener goes on
  to read \<^verbatim>\<open>message.id\<close>, and that throws a TypeError out of the listener. Here the
  worker of the sample supervisor sends \<^verbatim>\<open>null\<close> after \<^verbatim>\<open>start()\<close>.
\<close>

theorem null_message_raises:
  "typeof JNull = ''object'' \<and>
   on_message JNull (start sample_supervisor) = Inl TypeError \<and>
   step (ChildMessage 0 JNull) (start sample_supervisor) = Inl TypeError \<and>
   run [Start, ChildMessage 0 JNull] sample_supervisor = Inl TypeError"
  using sample_started by (simp add: on_message_def)

subsection \<open>Status notifications\<close>

lemma notified_same:
  "published t = published s \<Longrightarrow> lastBridgeStatus t = lastBridgeStatus s \<Longrightarrow> notified s t"
  by (simp add: notified_def)

lemma notified_trans:
  assumes "notified s t" "notified t u"
  shows "notified s u"
proof -
  obtain n1 where n1: "published t = published s @ n1" 
    using assms(1) by (metis append_take_drop_id notified_def)
  obtain n2 where n2: "published u = published t @ n2" 
    using assms(2) by (metis append_take_drop_id notified_def)
  have a: "lastBridgeStatus t \<noteq> lastBridgeStatus s \<longrightarrow> n1 \<noteq> []" "n1 \<noteq> [] \<longrightarrow> md_status (last n1) = lastBridgeStatus t"
    using assms(1) n1 by (simp_all add: notified_def)
  have b: "lastBridgeStatus u \<noteq> lastBridgeStatus t \<longrightarrow> n2 \<noteq> []" "n2 \<noteq> [] \<longrightarrow> md_status (last n2) = lastBridgeStatus u"
    using assms(2) n2 by (simp_all add: notified_def)
  show ?thesis using a b by (cases "n2 = []") (auto simp: notified_def n1 n2)
qed

lemma notified_set: "notified s (set_bridgeStatus v s)"
  by (simp add: notified_def set_bridgeStatus_def sendStatusUpdate_def getMetadata_def)

lemma notified_update: "notified s (sendStatusUpdate s)"
  by (simp add: notified_def sendStatusUpdate_def getMetadata_def)

lemma notified_spawn: "notified s (startChildProcess s)"
  by (simp add: notified_def startChildProcess_def set_bridgeStatus_def sendStatusUpdate_def getMetadata_def Let_def)

lemma notified_teardown: "notified s (teardown s)"
  by (simp add: notified_def teardown_def kill_def set_bridgeStatus_def sendStatusUpdate_def getMetadata_def)

lemma notified_close: "notified s (handleProcessClose code signal s)"
  by (simp add: notified_def basic_defs getMetadata_def)

lemma notified_send: "notified s (sendMessage m s)"
  by (simp add: notified_def sendMessage_def)

lemma notified_startChildBridge: "notified s (startChildBridge s)"
  by (simp add: notified_def startChildBridge_def refreshConfig_call_def basic_defs getMetadata_def)

lemma notified_stop: "notified s (stopChildBridge s)"
  by (cases "child s")
     (simp_all add: notified_def stopChildBridge_def child_connected_def basic_defs getMetadata_def)

lemma notified_restart: "notified s (restartChildBridge s)"
proof (cases "manuallyStopped s")
  case True
  have "notified s (s\<lparr>restartCount := 0\<rparr>)" by (simp add: notified_def)
  from notified_trans[OF this notified_startChildBridge] True show ?thesis
    by (simp add: restartChildBridge_def)
next
  case False
  have "notified s (refreshConfig_call (log Warn ''Child bridge restarting...'' s))"
    by (simp add: notified_def refreshConfig_call_def log_def)
  from notified_trans[OF this notified_teardown] False show ?thesis
    by (simp add: restartChildBridge_def)
qed

lemma notified_start: "notified s (start s)"
  by (simp add: notified_def start_def setProcessFlags_def setProcessEnv_def basic_defs getMetadata_def)

lemma notified_config_read: "config_read r s = Inr s' \<Longrightarrow> notified s s'"
  by (auto simp: notified_def config_read_def refreshConfig_resume_def refreshConfig_try_def
        adopt_config_def log_def Let_def
      split: if_splits read_result.splits PluginType.splits option.splits sum.splits)

lemma notified_log: "notified s (log l m s)"
  by (simp add: notified_def log_def)

lemma notified_load: "notified s (loadPlugin (log l m s))"
  unfolding loadPlugin_def by (rule notified_trans[OF notified_log notified_send])

lemma notified_startBridge: "notified s (startBridge (log l m s))"
  unfolding startBridge_def by (rule notified_trans[OF notified_log notified_send])

lemma notified_port: "notified s (handlePortRequest d s)"
  by (simp add: notified_def handlePortRequest_def split: sum.splits)

lemma notified_paired: "notified s (sendStatusUpdate (s\<lparr>pairedStatus := p, setupUri := u\<rparr>))"
  by (simp add: notified_def sendStatusUpdate_def getMetadata_def)

lemma notified_message: "on_message m s = Inr s' \<Longrightarrow> notified s s'"
  unfolding on_message_def
  by (auto simp del: event_id.simps split: if_splits sum.splits
        intro: notified_same notified_load notified_startBridge notified_set notified_port notified_paired)

lemma notified_step: "step e s = Inr s' \<Longrightarrow> notified s s'"
proof (cases e)
  case (ChildClose c code signal)
  assume "step e s = Inr s'"
  then have s': "s' = child_close c code signal s" using ChildClose by simp
  show ?thesis
  proof (cases "c < length (procs s) \<and> \<not> closed (procs s ! c) \<and> closeListener (procs s ! c)")
    case True
    let ?s1 = "s\<lparr>procs := (procs s)[c := (procs s ! c)\<lparr>connected := False, closed := True, closeListener := False\<rparr>]\<rparr>"
    have "notified s ?s1" by (simp add: notified_def)
    from notified_trans[OF this notified_close] True s' show ?thesis
      by (simp add: child_close_def Let_def)
  next
    case False
    then show ?thesis using s' by (auto simp: child_close_def Let_def notified_def)
  qed
next
  case (TimerFired i)
  assume "step e s = Inr s'"
  then have s': "s' = timer_fired i s" using TimerFired by simp
  have "notified s (s\<lparr>timers := ts\<rparr>)" for ts by (simp add: notified_def)
  from notified_trans[OF this notified_spawn] s' show ?thesis
    by (auto simp: timer_fired_def restart_timer_fired_def intro: notified_same)
next
  case ApiShutdown
  assume "step e s = Inr s'"
  then have s': "s' = on_shutdown s" using ApiShutdown by simp
  have "notified s (s\<lparr>shuttingDown := True\<rparr>)" by (simp add: notified_def)
  from notified_trans[OF this notified_teardown] s' show ?thesis by (simp add: on_shutdown_def)
next
  case (ChildError c)
  assume "step e s = Inr s'"
  then show ?thesis using ChildError notified_trans[OF notified_set notified_log]
    by (auto simp: on_error_def intro: notified_same split: if_splits)
next
  case (PortResolved i port)
  assume "step e s = Inr s'"
  then have s': "s' = port_resolved i port s" using PortResolved by simp
  have "notified s (s\<lparr>portRequests := ts\<rparr>)" for ts by (simp add: notified_def)
  from notified_trans[OF this notified_send] s' show ?thesis
    by (auto simp: port_resolved_def intro: notified_same)
qed (auto simp: addConfig_def refreshConfig_call_def child_disconnect_def
       intro: notified_start notified_restart notified_stop notified_startChildBridge notified_same
         notified_config_read notified_message split: if_splits)

text \<open>
  C9. The setter of \<^verbatim>\<open>bridgeStatus\<close> stores the value and hands exactly one snapshot to
  the publisher, the metadata of the supervisor with the new status. No field of the
  class is assigned the status in any other way, so over every event the notifications
  only grow, a change of status comes with at least one new notification, and the last
  new notification carries the status the supervisor is left with.
\<close>

theorem status_changes_are_published:
  "set_bridgeStatus v s =
     s\<lparr>lastBridgeStatus := v,
       published := published s @ [getMetadata (s\<lparr>lastBridgeStatus := v\<rparr>)]\<rparr> \<and>
   (step e s = Inr s' \<longrightarrow> notified s s')"
  using notified_step[of e s s']
  by (simp add: set_bridgeStatus_def sendStatusUpdate_def)

theorem status_changes_are_published_witness:
  "step (ChildMessage 0 (JObj [(''id'', JStr ''online'')])) (start sample_supervisor) =
     Inr (set_bridgeStatus OK (start sample_supervisor)) \<and>
   notified (start sample_supervisor) (set_bridgeStatus OK (start sample_supervisor)) \<and>
   lastBridgeStatus (set_bridgeStatus OK (start sample_supervisor)) = OK \<and>
   lastBridgeStatus (start sample_supervisor) = PENDING"
proof -
  have a: "step (ChildMessage 0 (JObj [(''id'', JStr ''online'')])) (start sample_supervisor) =
     Inr (set_bridgeStatus OK (start sample_supervisor))"
    using sample_started by (simp add: on_message_def)
  have n: "notified (start sample_supervisor) (set_bridgeStatus OK (start sample_supervisor))"
    using status_changes_are_published[of OK "start sample_supervisor"
        "ChildMessage 0 (JObj [(''id'', JStr ''online'')])" "set_bridgeStatus OK (start sample_supervisor)",
        THEN conjunct2, THEN mp, OF a] .
  show ?thesis using a n
    by (simp add: start_fields2 set_bridgeStatus_def sendStatusUpdate_def)
qed

subsection \<open>The restart counter\<close>

lemma restartCount_startChildBridge: "restartCount (startChildBridge s) = restartCount s"
  by (simp add: startChildBridge_def refreshConfig_call_def basic_defs)

lemma restartCount_teardown: "restartCount (teardown s) = restartCount s"
  by (simp add: basic_defs)

lemma restartCount_message: "on_message m s = Inr s' \<Longrightarrow> restartCount s' = restartCount s"
  unfolding on_message_def
  by (auto simp del: event_id.simps simp: loadPlugin_def startBridge_def sendMessage_def log_def
        set_bridgeStatus_def sendStatusUpdate_def handlePortRequest_def
        split: if_splits sum.splits)

lemma restartCount_config_read: "config_read r s = Inr s' \<Longrightarrow> restartCount s' = restartCount s"
  by (auto simp: config_read_def refreshConfig_resume_def refreshConfig_try_def
        adopt_config_def log_def Let_def
      split: if_splits read_result.splits PluginType.splits option.splits sum.splits)

lemma restartCount_close:
  "restartCount (handleProcessClose code signal s) =
     (if isLikelyPluginCrash code signal then
        (if restartCount s < maxRestarts then restartCount s + 1 else restartCount s)
      else if \<not> shuttingDown s then 0 else restartCount s)"
  by (simp add: handleProcessClose_def log_def set_bridgeStatus_def sendStatusUpdate_def
        startChildProcess_def Let_def)

lemma sample_crashed:
  "restartCount (crash_close (start sample_supervisor)) = 1"
  "\<not> shuttingDown (crash_close (start sample_supervisor))"
proof -
  have h: "armed 0 (start sample_supervisor)" by (rule armed_start) (simp_all add: sample_fresh)
  show "restartCount (crash_close (start sample_supervisor)) = 1"
    using armed_cycle[OF h] by (simp add: maxRestarts_def)
  show "\<not> shuttingDown (crash_close (start sample_supervisor))"
    using sample_started
    by (simp add: crash_close_def child_close_def handleProcessClose_def log_def set_bridgeStatus_def
          sendStatusUpdate_def isLikelyPluginCrash_def Let_def start_fields sample_fresh maxRestarts_def)
qed

lemma restartCount_stop: "\<not> shuttingDown s \<Longrightarrow> restartCount (stopChildBridge s) = 0"
  by (simp add: stopChildBridge_def restartCount_teardown removeAllListeners_close_def
        set_bridgeStatus_def sendStatusUpdate_def log_def Let_def split: option.splits)

text \<open>
  C10, as stated, fails: \<^verbatim>\<open>stopChildBridge\<close> is neither a restart cycle nor a manual
  restart, and it sets \<open>restartCount\<close> to 0. Here the worker of the sample supervisor has
  crashed once and the supervisor is stopped while the restart timer is pending.
\<close>

theorem stop_resets_restartCount_counterexample:
  "\<not> shuttingDown (crash_close (start sample_supervisor)) \<and>
   restartCount (crash_close (start sample_supervisor)) = 1 \<and>
   step StopChildBridge (crash_close (start sample_supervisor)) =
     Inr (stopChildBridge (crash_close (start sample_supervisor))) \<and>
   restartCount (stopChildBridge (crash_close (start sample_supervisor))) = 0"
  using sample_crashed restartCount_stop[OF sample_crashed(2)] by simp

text \<open>
  C10, amended. An event lowers \<open>restartCount\<close> only by setting it to 0, and only in
  three places: a close that is not a crash while not shutting down (the clean restart
  cycle), \<^verbatim>\<open>restartChildBridge\<close> on a manually stopped supervisor (the manual restart),
  and \<^verbatim>\<open>stopChildBridge\<close> while not shutting down.
\<close>

theorem restartCount_resets:
  assumes "step e s = Inr s'" "restartCount s' < restartCount s"
  shows "restartCount s' = 0 \<and>
     ((\<exists>c code signal. e = ChildClose c code signal \<and> \<not> isLikelyPluginCrash code signal \<and>
         \<not> shuttingDown s) \<or>
      (e = RestartChildBridge \<and> manuallyStopped s) \<or>
      (e = StopChildBridge \<and> \<not> shuttingDown s))"
proof (cases e)
  case Start
  then show ?thesis using assms by (auto simp: start_fields)
next
  case (AddConfig x2)
  then show ?thesis using assms by (auto simp: addConfig_def)
next
  case RestartChildBridge
  then show ?thesis using assms
    by (auto simp: restartChildBridge_def restartCount_startChildBridge restartCount_teardown
          refreshConfig_call_def log_def split: if_splits)
next
  case StopChildBridge
  then show ?thesis using assms
    by (auto simp: stopChildBridge_def restartCount_teardown removeAllListeners_close_def
          set_bridgeStatus_def sendStatusUpdate_def log_def Let_def split: if_splits option.splits)
next
  case StartChildBridge
  then show ?thesis using assms by (auto simp: restartCount_startChildBridge)
next
  case RefreshConfig
  then show ?thesis using assms by (auto simp: refreshConfig_call_def)
next
  case (ConfigRead r)
  then show ?thesis using assms restartCount_config_read[of r s s'] by auto
next
  case ApiShutdown
  then show ?thesis using assms by (auto simp: on_shutdown_def restartCount_teardown)
next
  case (ChildClose c code signal)
  then show ?thesis using assms
    by (auto simp: child_close_def restartCount_close Let_def split: if_splits)
next
  case (ChildError c)
  then show ?thesis using assms
    by (auto simp: on_error_def log_def set_bridgeStatus_def sendStatusUpdate_def split: if_splits)
next
  case (ChildDisconnect c)
  then show ?thesis using assms by (auto simp: child_disconnect_def split: if_splits)
next
  case (ChildMessage c m)
  then show ?thesis using assms restartCount_message[of m s s'] by (auto split: if_splits)
next
  case (TimerFired i)
  then show ?thesis using assms
    by (auto simp: timer_fired_def restart_timer_fired_def startChildProcess_def
          set_bridgeStatus_def sendStatusUpdate_def Let_def split: if_splits)
next
  case (PortResolved i port)
  then show ?thesis using assms by (auto simp: port_resolved_def sendMessage_def split: if_splits)
qed


theorem restartCount_resets_witness:
  "step StopChildBridge (crash_close (start sample_supervisor)) =
     Inr (stopChildBridge (crash_close (start sample_supervisor))) \<and>
   restartCount (stopChildBridge (crash_close (start sample_supervisor))) <
     restartCount (crash_close (start sample_supervisor)) \<and>
   restartCount (stopChildBridge (crash_close (start sample_supervisor))) = 0 \<and>
   \<not> shuttingDown (crash_close (start sample_supervisor))"
proof -
  let ?s = "crash_close (start sample_supervisor)"
  have c: "restartCount (stopChildBridge ?s) < restartCount ?s"
    using sample_crashed restartCount_stop[OF sample_crashed(2)] by simp
  have s: "step StopChildBridge ?s = Inr (stopChildBridge ?s)" by simp
  from restartCount_resets[OF s c] show ?thesis using s c by simp
qed

subsection \<open>Manual stop and automatic restarts\<close>

lemma core_start:
  assumes "core s = (ch, sd, ms, rc, st, ts, fs)"
  shows "core (start s) = (Some (length fs), sd, ms, rc, PENDING, ts, fs @ [(True, True, False)])"
  using assms by (auto simp: core_def start_fields start_fields2 flags_def)

lemma core_spawn:
  assumes "core s = (ch, sd, ms, rc, st, ts, fs)"
  shows "core (startChildProcess s) = (Some (length fs), sd, ms, rc, PENDING, ts, fs @ [(True, True, False)])"
  using assms by (auto simp: core_def flags_def basic_defs)

lemma core_close_handler:
  assumes "core s = (ch, sd, ms, rc, st, ts, fs)"
  shows "core (handleProcessClose code signal s) =
     (if code = Some 1 \<and> signal = None then
        (if rc < 4 then (ch, sd, ms, rc + 1, PENDING, ts @ [(rc + 1) * 10 * 1000], fs)
         else (ch, sd, True, rc, DOWN, ts, fs))
      else if \<not> sd then (Some (length fs), sd, ms, 0, PENDING, ts, fs @ [(True, True, False)])
      else (ch, sd, ms, rc, st, ts, fs))"
  using assms by (auto simp: core_def flags_def basic_defs)

lemma core_child_close:
  assumes "core s = (ch, sd, ms, rc, st, ts, fs)" "c < length fs" "fs ! c = (cn, True, False)"
  shows "core (child_close c code signal s) =
     (if code = Some 1 \<and> signal = None then
        (if rc < 4 then (ch, sd, ms, rc + 1, PENDING, ts @ [(rc + 1) * 10 * 1000], fs[c := (False, False, True)])
         else (ch, sd, True, rc, DOWN, ts, fs[c := (False, False, True)]))
      else if \<not> sd then (Some (length fs), sd, ms, 0, PENDING, ts, fs[c := (False, False, True)] @ [(True, True, False)])
      else (ch, sd, ms, rc, st, ts, fs[c := (False, False, True)]))"
proof -
  let ?s1 = "s\<lparr>procs := (procs s)[c := (procs s ! c)\<lparr>connected := False, closed := True, closeListener := False\<rparr>]\<rparr>"
  have l: "c < length (procs s)" "\<not> closed (procs s ! c)" "closeListener (procs s ! c)"
    using assms by (auto simp: core_def flags_def)
  have c1: "core ?s1 = (ch, sd, ms, rc, st, ts, fs[c := (False, False, True)])"
    using assms(1) by (auto simp: core_def flags_def map_update)
  have "child_close c code signal s = handleProcessClose code signal ?s1"
    using l by (simp add: child_close_def Let_def)
  then show ?thesis using core_close_handler[OF c1, of code signal] by simp
qed

lemma core_timer:
  assumes "core s = (ch, sd, ms, rc, st, t # ts, fs)"
  shows "core (timer_fired 0 s) =
     (if sd then (ch, sd, ms, rc, st, ts, fs)
      else (Some (length fs), sd, ms, rc, PENDING, ts, fs @ [(True, True, False)]))"
proof -
  have c1: "core (s\<lparr>timers := ts\<rparr>) = (ch, sd, ms, rc, st, ts, fs)"
    using assms by (auto simp: core_def)
  have "timer_fired 0 s = restart_timer_fired (s\<lparr>timers := ts\<rparr>)"
    using assms by (auto simp: timer_fired_def core_def)
  then show ?thesis using core_spawn[OF c1] c1 assms
    by (auto simp: restart_timer_fired_def core_def)
qed

lemma core_stop:
  assumes "core s = (Some c, False, ms, rc, st, ts, fs)" "c < length fs" "fs ! c = (cn, l, cl)"
  shows "core (stopChildBridge s) = (Some c, True, True, 0, DOWN, ts, fs[c := (cn, False, cl)])"
  using assms
  by (auto simp: core_def flags_def stopChildBridge_def child_connected_def basic_defs map_update
        nth_list_update)

lemma core_startChildBridge:
  assumes "core s = (Some c, sd, True, rc, DOWN, ts, fs)" "c < length fs" "fs ! c = (False, l, cl)"
  shows "core (startChildBridge s) =
           (Some (length fs), False, False, rc, PENDING, ts, fs @ [(True, True, False)])"
  using assms
  by (auto simp: core_def flags_def startChildBridge_def child_connected_def refreshConfig_call_def basic_defs)


lemma core_sample: "core sample_supervisor = (None, False, False, 0, PENDING, [], [])"
  by (simp add: core_def sample_supervisor_def init_def addConfig_def)

lemma core_fields:
  assumes "core s = (ch, sd, ms, rc, st, ts, fs)"
  shows "child s = ch" "shuttingDown s = sd" "manuallyStopped s = ms" "restartCount s = rc"
    "lastBridgeStatus s = st" "timers s = ts" "length (procs s) = length fs"
  using assms by (auto simp: core_def)

lemma stale_timer_run:
  "\<exists>t. run stale_timer_trace sample_supervisor = Inr t \<and>
       core t = (Some 6, False, True, 4, DOWN, [],
                 [(False, False, True), (True, True, False), (False, False, True),
                  (False, False, True), (False, False, True), (False, False, True),
                  (False, False, True)])"
proof -
  let ?s1 = "start sample_supervisor"
  let ?s2 = "child_close 0 (Some 1) None ?s1"
  let ?s3 = "stopChildBridge ?s2"
  let ?s4 = "startChildBridge ?s3"
  let ?s5 = "timer_fired 0 ?s4"
  let ?s6 = "child_close 2 (Some 1) None ?s5"
  let ?s7 = "timer_fired 0 ?s6"
  let ?s8 = "child_close 3 (Some 1) None ?s7"
  let ?s9 = "timer_fired 0 ?s8"
  let ?s10 = "child_close 4 (Some 1) None ?s9"
  let ?s11 = "timer_fired 0 ?s10"
  let ?s12 = "child_close 5 (Some 1) None ?s11"
  let ?s13 = "timer_fired 0 ?s12"
  let ?s14 = "child_close 6 (Some 1) None ?s13"
  let ?dead = "(False, False, True)"
  let ?live = "(True, True, False)"
  have c1: "core ?s1 = (Some 0, False, False, 0, PENDING, [], [?live])"
    using core_start[OF core_sample] by simp
  have c2: "core ?s2 = (Some 0, False, False, 1, PENDING, [10000], [?dead])"
    using core_child_close[OF c1, of 0 True "Some 1" None] by simp
  have c3: "core ?s3 = (Some 0, True, True, 0, DOWN, [10000], [?dead])"
    using core_stop[OF c2, of False False True] by simp
  have c4: "core ?s4 = (Some 1, False, False, 0, PENDING, [10000], [?dead, ?live])"
    using core_startChildBridge[OF c3, of False True] by simp
  have c5: "core ?s5 = (Some 2, False, False, 0, PENDING, [], [?dead, ?live, ?live])"
    using core_timer[OF c4] by simp
  have c6: "core ?s6 = (Some 2, False, False, 1, PENDING, [10000], [?dead, ?live, ?dead])"
    using core_child_close[OF c5, of 2 True "Some 1" None] by simp
  have c7: "core ?s7 = (Some 3, False, False, 1, PENDING, [], [?dead, ?live, ?dead, ?live])"
    using core_timer[OF c6] by simp
  have c8: "core ?s8 = (Some 3, False, False, 2, PENDING, [20000], [?dead, ?live, ?dead, ?dead])"
    using core_child_close[OF c7, of 3 True "Some 1" None] by simp
  have c9: "core ?s9 = (Some 4, False, False, 2, PENDING, [], [?dead, ?live, ?dead, ?dead, ?live])"
    using core_timer[OF c8] by simp
  have c10: "core ?s10 = (Some 4, False, False, 3, PENDING, [30000], [?dead, ?live, ?dead, ?dead, ?dead])"
    using core_child_close[OF c9, of 4 True "Some 1" None] by simp
  have c11: "core ?s11 = (Some 5, False, False, 3, PENDING, [], [?dead, ?live, ?dead, ?dead, ?dead, ?live])"
    using core_timer[OF c10] by simp
  have c12: "core ?s12 = (Some 5, False, False, 4, PENDING, [40000], [?dead, ?live, ?dead, ?dead, ?dead, ?dead])"
    using core_child_close[OF c11, of 5 True "Some 1" None] by simp
  have c13: "core ?s13 = (Some 6, False, False, 4, PENDING, [], [?dead, ?live, ?dead, ?dead, ?dead, ?dead, ?live])"
    using core_timer[OF c12] by simp
  have c14: "core ?s14 = (Some 6, False, True, 4, DOWN, [], [?dead, ?live, ?dead, ?dead, ?dead, ?dead, ?dead])"
    using core_child_close[OF c13, of 6 True "Some 1" None] by simp
  have r: "run stale_timer_trace sample_supervisor = Inr ?s14"
    by (simp add: stale_timer_trace_def)
  show ?thesis using r c14 by blast
qed

text \<open>
  C5. The claim fails in a state the supervisor reaches through its public operations.
  After the events of \<open>stale_timer_trace\<close> the supervisor is manually stopped (the five
  crashes exhausted the restarts), not shutting down, with status Down and no timer
  pending. Worker 1 is still running with its close listener. When it exits with code 0,
  \<^verbatim>\<open>handleProcessClose\<close>, which does not look at \<open>manuallyStopped\<close>, forks a new worker
  at once: the supervisor is left manually stopped with status Pending and a worker
  running, and nobody called \<^verbatim>\<open>startChildBridge\<close>.
\<close>

theorem orphan_exit_respawns_while_manually_stopped:
  "(case run stale_timer_trace sample_supervisor of
      Inl e \<Rightarrow> False
    | Inr t \<Rightarrow>
        manuallyStopped t \<and> \<not> shuttingDown t \<and> lastBridgeStatus t = DOWN \<and>
        timers t = [] \<and> length (procs t) = 7 \<and> child t = Some 6 \<and>
        (case step (ChildClose 1 (Some 0) None) t of
           Inl e \<Rightarrow> False
         | Inr u \<Rightarrow>
             manuallyStopped u \<and> lastBridgeStatus u = PENDING \<and>
             length (procs u) = 8 \<and> child u = Some 7))"
proof -
  obtain t where r: "run stale_timer_trace sample_supervisor = Inr t"
    and c: "core t = (Some 6, False, True, 4, DOWN, [],
                 [(False, False, True), (True, True, False), (False, False, True),
                  (False, False, True), (False, False, True), (False, False, True),
                  (False, False, True)])"
    using stale_timer_run by blast
  have c': "core (child_close 1 (Some 0) None t) =
      (Some 7, False, True, 0, PENDING, [],
       [(False, False, True), (False, False, True), (False, False, True),
        (False, False, True), (False, False, True), (False, False, True),
        (False, False, True), (True, True, False)])"
    using core_child_close[OF c, of 1 True "Some 0" None] by simp
  have q: "step (ChildClose 1 (Some 0) None) t = Inr (child_close 1 (Some 0) None t)" by simp
  show ?thesis unfolding r q using core_fields[OF c] core_fields[OF c'] by simp
qed

text \<open>
  C1. After the fifth consecutive crash the status is to be Down, \<open>manuallyStopped\<close> true,
  and no respawn is to follow without a call of \<^verbatim>\<open>startChildBridge\<close>. The first two
  hold; the last does not. In \<open>stale_timer_trace\<close> the five closes that end the trace are
  consecutive crashes of the attached worker, with the restart timer firing in between:
  they leave \<open>restartCount\<close> at \<open>maxRestarts\<close>, the status Down, \<open>manuallyStopped\<close> true
  and no timer pending. Worker 1, forked before them, is still running with its close
  listener. When it is killed by a signal, which is an event that starts no worker on
  request, \<^verbatim>\<open>handleProcessClose\<close> forks a new worker and sets the status to Pending.
\<close>

theorem respawn_after_fifth_crash:
  "(case run stale_timer_trace sample_supervisor of
      Inl e \<Rightarrow> False
    | Inr t \<Rightarrow>
        restartCount t = maxRestarts \<and> lastBridgeStatus t = DOWN \<and> manuallyStopped t \<and>
        timers t = [] \<and>
        list_all (\<lambda>e. \<not> starts_worker e) [ChildClose 1 None (Some ''SIGTERM'')] \<and>
        (case run [ChildClose 1 None (Some ''SIGTERM'')] t of
           Inl e \<Rightarrow> False
         | Inr u \<Rightarrow>
             length (procs u) = length (procs t) + 1 \<and> child u = Some 7 \<and>
             lastBridgeStatus u = PENDING \<and> manuallyStopped u \<and> restartCount u = 0))"
proof -
  obtain t where r: "run stale_timer_trace sample_supervisor = Inr t"
    and c: "core t = (Some 6, False, True, 4, DOWN, [],
                 [(False, False, True), (True, True, False), (False, False, True),
                  (False, False, True), (False, False, True), (False, False, True),
                  (False, False, True)])"
    using stale_timer_run by blast
  have c': "core (child_close 1 None (Some ''SIGTERM'') t) =
      (Some 7, False, True, 0, PENDING, [],
       [(False, False, True), (False, False, True), (False, False, True),
        (False, False, True), (False, False, True), (False, False, True),
        (False, False, True), (True, True, False)])"
    using core_child_close[OF c, of 1 True None "Some ''SIGTERM''"] by simp
  have q: "run [ChildClose 1 None (Some ''SIGTERM'')] t =
             Inr (child_close 1 None (Some ''SIGTERM'') t)" by simp
  show ?thesis unfolding r q using core_fields[OF c] core_fields[OF c']
    by (simp add: maxRestarts_def)
qed

end
